theory Spec2Isabelle
  imports Complex_Main "HOL-Library.Sublist"
begin

section \<open>Errors and formatted messages\<close>

text \<open>
  The worker commands of \<^verbatim>\<open>src/worker/worker.go\<close> report failure through Go's
  \<^verbatim>\<open>error\<close> interface; \<^verbatim>\<open>nil\<close> is \<open>None\<close>.  An error built with
  \<^verbatim>\<open>fmt.Errorf(format, args...)\<close> is kept as the format string of the source together
  with its arguments, in order; an error of \<^verbatim>\<open>strconv.Atoi\<close> is a \<^verbatim>\<open>*NumError\<close>
  with its \<^verbatim>\<open>Func\<close>, \<^verbatim>\<open>Num\<close> and \<^verbatim>\<open>Err\<close> fields; an error handed back by the
  operating system or by another package is opaque and carries its message.
\<close>

datatype numerr = ErrSyntax | ErrRange

datatype error =
    Errorf string "fmtarg list"
  | NumError string string numerr
  | Opaque string
and fmtarg =
    ArgS string
  | ArgD int
  | ArgT string
  | ArgE "error option"

section \<open>Library functions of package strings and strconv\<close>

text \<open>
  \<^verbatim>\<open>strings.Split(s, sep)\<close> for a separator of one byte, which is how every call of the
  source uses it (\<^verbatim>\<open>","\<close>, \<^verbatim>\<open>"="\<close>, \<^verbatim>\<open>"."\<close>).  The result always has at least one
  element: the empty string splits into one empty string.
\<close>

fun Split :: "string \<Rightarrow> char \<Rightarrow> string list" where
  "Split [] sep = [[]]"
| "Split (c # cs) sep =
     (if c = sep then [] # Split cs sep
      else (case Split cs sep of
              [] \<Rightarrow> [[c]]
            | p # ps \<Rightarrow> (c # p) # ps))"

text \<open>
  \<^verbatim>\<open>strings.ToLower\<close> on the bytes of a string: the ASCII capitals move to their small
  letters, every other byte stays.  (On text outside ASCII Go maps code points; no code
  point outside ASCII maps to a letter of \<^verbatim>\<open>true\<close> or \<^verbatim>\<open>false\<close>, so the two
  comparisons of \<^verbatim>\<open>overrideOpts\<close> read the same.)
\<close>

definition lowerByte :: "char \<Rightarrow> char" where
  "lowerByte c =
     (case map_of (zip ''ABCDEFGHIJKLMNOPQRSTUVWXYZ'' ''abcdefghijklmnopqrstuvwxyz'') c of
        Some l \<Rightarrow> l
      | None \<Rightarrow> c)"

definition ToLower :: "string \<Rightarrow> string" where
  "ToLower s = map lowerByte s"

text \<open>
  \<^verbatim>\<open>strconv.Atoi\<close> where \<^verbatim>\<open>int\<close> has 64 bits: an optional sign, then at least one
  decimal digit and nothing else.  \<open>scanDigits\<close> is the digit loop of
  \<^verbatim>\<open>ParseUint(s, 10, 64)\<close>, which reports a range error as soon as the unsigned value
  leaves 64 bits and a syntax error at the first byte that is no digit, whichever
  comes first; the signed bounds are checked afterwards.
\<close>

definition isDigit :: "char \<Rightarrow> bool" where
  "isDigit c = ((48::nat) \<le> of_char c \<and> of_char c \<le> (57::nat))"

definition digitVal :: "char \<Rightarrow> nat" where
  "digitVal c = of_char c - 48"

definition maxUint64 :: nat where
  "maxUint64 = 18446744073709551615"

fun scanDigits :: "nat \<Rightarrow> string \<Rightarrow> numerr + nat" where
  "scanDigits n [] = Inr n"
| "scanDigits n (c # cs) =
     (if \<not> isDigit c then Inl ErrSyntax
      else if n \<ge> maxUint64 div 10 + 1 then Inl ErrRange
      else if n * 10 + digitVal c > maxUint64 then Inl ErrRange
      else scanDigits (n * 10 + digitVal c) cs)"

definition Atoi :: "string \<Rightarrow> error + int" where
  "Atoi s =
     (let neg = (case s of [] \<Rightarrow> False | c # _ \<Rightarrow> c = CHR ''-'');
          digits = (case s of [] \<Rightarrow> []
                    | c # cs \<Rightarrow> if c = CHR ''+'' \<or> c = CHR ''-'' then cs else s)
      in if digits = [] then Inl (NumError ''Atoi'' s ErrSyntax)
         else (case scanDigits 0 digits of
                 Inl e \<Rightarrow> Inl (NumError ''Atoi'' s e)
               | Inr un \<Rightarrow>
                   if \<not> neg \<and> un \<ge> 2 ^ 63 then Inl (NumError ''Atoi'' s ErrRange)
                   else if neg \<and> un > 2 ^ 63 then Inl (NumError ''Atoi'' s ErrRange)
                   else Inr (if neg then - int un else int un)))"

section \<open>The configuration tree\<close>

text \<open>
  \<^verbatim>\<open>json.Unmarshal\<close> into a \<^verbatim>\<open>map[string]any\<close> yields \<^verbatim>\<open>nil\<close>, \<^verbatim>\<open>bool\<close>,
  \<^verbatim>\<open>float64\<close>, \<^verbatim>\<open>string\<close>, \<^verbatim>\<open>[]any\<close> and \<^verbatim>\<open>map[string]any\<close> values.
  \<^verbatim>\<open>overrideOpts\<close> itself stores the \<^verbatim>\<open>int\<close> that \<^verbatim>\<open>strconv.Atoi\<close> returns, so
  the dynamic type \<^verbatim>\<open>int\<close> is a case of its own.  The numeric value of a
  \<^verbatim>\<open>float64\<close> leaf is never read by the code; a real number stands for it.
\<close>

datatype any =
    VNil
  | VBool bool
  | VFloat64 real
  | VInt int
  | VString string
  | VSlice "any list"
  | VMap "string \<Rightarrow> any option"

type_synonym conf = "string \<Rightarrow> any option"

text \<open>What the verb \<^verbatim>\<open>%T\<close> prints for a value.\<close>

fun typeName :: "any \<Rightarrow> string" where
  "typeName VNil = ''<nil>''"
| "typeName (VBool _) = ''bool''"
| "typeName (VFloat64 _) = ''float64''"
| "typeName (VInt _) = ''int''"
| "typeName (VString _) = ''string''"
| "typeName (VSlice _) = ''[]interface {}''"
| "typeName (VMap _) = ''map[string]interface {}''"

section \<open>overrideOpts\<close>

text \<open>
  The type switch on the previous value of the leaf (lines 67 to 85): the new value
  of \<^verbatim>\<open>c[key]\<close>, or the error returned.
\<close>

fun coerce :: "any \<Rightarrow> string \<Rightarrow> string \<Rightarrow> error + any" where
  "coerce (VString _) key val = Inr (VString val)"
| "coerce (VFloat64 _) key val =
     (case Atoi val of Inl err \<Rightarrow> Inl err | Inr n \<Rightarrow> Inr (VInt n))"
| "coerce (VBool _) key val =
     (if ToLower val = ''true'' then Inr (VBool True)
      else if ToLower val = ''false'' then Inr (VBool False)
      else Inl (Errorf (CHR 0x27 # ''%s' for %s not a valid boolean value'')
                  [ArgS val, ArgS key]))"
| "coerce prev key val =
     Inl (Errorf ''config values of type %T (%s) must be edited manually in the config file ''
            [ArgT (typeName prev), ArgS key])"

text \<open>
  The walk along \<^verbatim>\<open>keys\<close> (lines 48 to 85).  The Go code moves the reference
  \<^verbatim>\<open>c\<close> into the nested map and assigns there; the maps of a decoded tree are not
  shared, so the assignment is the rebuilt tree.  All keys but the last must name
  a nested map; the last one must exist.  \<^verbatim>\<open>keys\<close> is a result of
  \<^verbatim>\<open>strings.Split\<close> and never empty; on the empty list the index expression
  \<^verbatim>\<open>keys[len(keys)-1]\<close> would panic.
\<close>

fun applyKeys :: "conf \<Rightarrow> string list \<Rightarrow> string \<Rightarrow> error + conf" where
  "applyKeys c [] val = Inl (Opaque ''panic: index out of range [-1]'')"
| "applyKeys c [key] val =
     (case c key of
        None \<Rightarrow> Inl (Errorf (''invalid option: '%s'' @ [CHR 0x27]) [ArgS key])
      | Some prev \<Rightarrow>
          (case coerce prev key val of
             Inl err \<Rightarrow> Inl err
           | Inr v \<Rightarrow> Inr (c(key \<mapsto> v))))"
| "applyKeys c (k # ks) val =
     (case c k of
        None \<Rightarrow> Inl (Errorf ''key '%s' not found'' [ArgS k])
      | Some sub \<Rightarrow>
          (case sub of
             VMap v \<Rightarrow>
               (case applyKeys v ks val of
                  Inl err \<Rightarrow> Inl err
                | Inr v' \<Rightarrow> Inr (c(k \<mapsto> VMap v')))
           | _ \<Rightarrow> Inl (Errorf ''%s refers to a %T, not a map'' [ArgS k, ArgT (typeName sub)])))"

text \<open>One \<^verbatim>\<open>key=val\<close> option (the body of the loop, lines 41 to 85).\<close>

definition applyOpt :: "conf \<Rightarrow> string \<Rightarrow> error + conf" where
  "applyOpt c opt =
     (let parts = Split opt CHR ''=''
      in if length parts \<noteq> 2
         then Inl (Errorf (''Could not parse key=val: '%s'' @ [CHR 0x27]) [ArgS opt])
         else applyKeys c (Split (parts ! 0) CHR ''.'') (parts ! 1))"

text \<open>The loop over the options (lines 40 to 86): the first error ends it.\<close>

fun applyOpts :: "conf \<Rightarrow> string list \<Rightarrow> error + conf" where
  "applyOpts c [] = Inr c"
| "applyOpts c (opt # opts) =
     (case applyOpt c opt of
        Inl err \<Rightarrow> Inl err
      | Inr c' \<Rightarrow> applyOpts c' opts)"

text \<open>
  The files \<^verbatim>\<open>overrideOpts\<close> works on.  A path leads to a file, and two paths may
  lead to the same file (\<^verbatim>\<open>config.json\<close> and \<^verbatim>\<open>./config.json\<close>, a link): \<open>node\<close>
  gives the file of a path, a number.  \<open>content\<close> gives what \<^verbatim>\<open>ioutil.ReadFile\<close>
  returns for a file, its bytes or the error (a file that does not exist is one
  whose content is an error).  \<open>openFails\<close> gives the paths that cannot be opened
  for writing, with the error; \<open>writeStops\<close> gives the paths at which a write
  breaks off, with the number of bytes that reach the file and the error.
\<close>

record filesystem =
  node :: "string \<Rightarrow> nat"
  content :: "nat \<Rightarrow> error + string"
  openFails :: "string \<Rightarrow> error option"
  writeStops :: "string \<Rightarrow> (nat \<times> error) option"

definition ReadFile :: "filesystem \<Rightarrow> string \<Rightarrow> error + string" where
  "ReadFile fs name = content fs (node fs name)"

text \<open>
  \<^verbatim>\<open>ioutil.WriteFile(name, data, perm)\<close> is
  \<^verbatim>\<open>OpenFile(name, O_WRONLY|O_CREATE|O_TRUNC, perm)\<close>, then \<^verbatim>\<open>f.Write(data)\<close>, then
  \<^verbatim>\<open>f.Close()\<close>, on the file itself: no temporary file, no rename.  \<open>openTrunc\<close> is
  the first step, which leaves the file empty; \<open>writeBytes\<close> is the second, which
  stores the data, or the bytes that got through when the write breaks off.
\<close>

definition openTrunc :: "filesystem \<Rightarrow> string \<Rightarrow> error option \<times> filesystem" where
  "openTrunc fs name =
     (case openFails fs name of
        Some err \<Rightarrow> (Some err, fs)
      | None \<Rightarrow> (None, fs\<lparr>content := (content fs)(node fs name := Inr [])\<rparr>))"

definition writeBytes :: "filesystem \<Rightarrow> string \<Rightarrow> string \<Rightarrow> error option \<times> filesystem" where
  "writeBytes fs name data =
     (case writeStops fs name of
        Some (n, err) \<Rightarrow> (Some err, fs\<lparr>content := (content fs)(node fs name := Inr (take n data))\<rparr>)
      | None \<Rightarrow> (None, fs\<lparr>content := (content fs)(node fs name := Inr data)\<rparr>))"

definition WriteFile :: "filesystem \<Rightarrow> string \<Rightarrow> string \<Rightarrow> nat \<Rightarrow> error option \<times> filesystem" where
  "WriteFile fs name data perm =
     (case openTrunc fs name of
        (Some err, fs1) \<Rightarrow> (Some err, fs1)
      | (None, fs1) \<Rightarrow> writeBytes fs1 name data)"

text \<open>
  \<^verbatim>\<open>overrideOpts(confPath, overridePath, optsStr)\<close>, lines 29 to 97.  The decoder
  \<^verbatim>\<open>json.Unmarshal\<close> and the encoder \<^verbatim>\<open>json.MarshalIndent\<close> of package
  encoding/json are parameters; the encoder receives the prefix and the indent
  of the call, and the permission \<^verbatim>\<open>0644\<close> is \<open>0x1A4\<close>.  The result is the
  returned error and the files afterwards.
\<close>

definition overrideOpts ::
  "(string \<Rightarrow> error + conf) \<Rightarrow> (conf \<Rightarrow> string \<Rightarrow> string \<Rightarrow> error + string) \<Rightarrow>
   filesystem \<Rightarrow> string \<Rightarrow> string \<Rightarrow> string \<Rightarrow> error option \<times> filesystem" where
  "overrideOpts Unmarshal MarshalIndent fs confPath overridePath optsStr =
     (case ReadFile fs confPath of
        Inl err \<Rightarrow> (Some err, fs)
      | Inr b \<Rightarrow>
     (case Unmarshal b of
        Inl err \<Rightarrow> (Some err, fs)
      | Inr conf \<Rightarrow>
     (case applyOpts conf (Split optsStr CHR '','') of
        Inl err \<Rightarrow> (Some err, fs)
      | Inr conf' \<Rightarrow>
     (case MarshalIndent conf' [] [CHR 0x09] of
        Inl err \<Rightarrow> (Some err, fs)
      | Inr s \<Rightarrow> WriteFile fs overridePath s 0x1A4))))"

section \<open>Calls to the world outside, and the trace of a command\<close>

text \<open>
  The commands \<^verbatim>\<open>new\<close>, \<^verbatim>\<open>up\<close>, \<^verbatim>\<open>down\<close> and \<^verbatim>\<open>force-cleanup\<close> work through system
  calls, child programs and other packages.  A \<open>call\<close> names one such step with
  its arguments; an \<open>event\<close> is a call or a line printed with \<^verbatim>\<open>fmt.Printf\<close>
  (format and arguments).  A command returns its error together with the trace of
  its events, in order.  Permissions are the octal numbers of the source:
  \<^verbatim>\<open>0700\<close> is \<open>0x1C0\<close>, \<^verbatim>\<open>0644\<close> is \<open>0x1A4\<close>; \<^verbatim>\<open>os.ModeAppend\<close> is \<open>0x40000000\<close>;
  \<^verbatim>\<open>syscall.MNT_DETACH\<close> is \<open>2\<close>; signal \<^verbatim>\<open>SIGINT\<close> is \<open>2\<close>; \<^verbatim>\<open>Sleep\<close> counts
  milliseconds.
\<close>

datatype call =
    Mkdir string nat
  | LoadDefaults string
  | LoadConf string
  | SaveConf string
  | NewClientFromEnv
  | DumpDockerImage string string
  | SysReadFile string
  | SysWriteFile string string nat
  | Command string "string list"
  | ReadDir string
  | Rmdir string
  | Unmount string nat
  | Remove string
  | Signal int nat
  | HttpGet string
  | BodyClose
  | Sleep nat

datatype event = Call call | Printf string "fmtarg list"

fun callsOf :: "event list \<Rightarrow> call list" where
  "callsOf [] = []"
| "callsOf (Call c # es) = c # callsOf es"
| "callsOf (Printf _ _ # es) = callsOf es"

text \<open>
  The fields of \<^verbatim>\<open>common.Conf\<close> that the worker commands read, and the two
  functions of package path/filepath they call (\<^verbatim>\<open>path.Join\<close> is the same
  function on Linux).  Both packages are outside this file of the repository and are
  parameters of the model.
\<close>

record Config =
  Worker_dir :: string
  Registry :: string
  SOCK_base_path :: string
  Worker_port :: string

record filepath =
  Join :: "string list \<Rightarrow> string"
  Base :: "string \<Rightarrow> string"

text \<open>
  The world as \<^verbatim>\<open>initOLDir\<close> and \<^verbatim>\<open>cleanup\<close> meet it.  What a call returns may
  depend on every call made before it, so each answer is a function of the calls
  so far: \<open>sys\<close> is the error of a call (\<open>None\<close> when it succeeds), \<open>readDir\<close> the
  entry names that \<^verbatim>\<open>ioutil.ReadDir\<close> lists, \<open>Conf\<close> the value of the global
  \<^verbatim>\<open>common.Conf\<close>, \<open>DumpConfStr\<close> the text of \<^verbatim>\<open>common.DumpConfStr()\<close>.
\<close>

record os =
  sys :: "call list \<Rightarrow> call \<Rightarrow> error option"
  readDir :: "call list \<Rightarrow> string \<Rightarrow> error + string list"
  Conf :: "call list \<Rightarrow> Config"
  DumpConfStr :: "call list \<Rightarrow> string"

text \<open>
  A run of steps of the form \<^verbatim>\<open>if err := step(); err != nil { return err }\<close>: the
  first error ends the run and is returned.
\<close>

fun tryAll :: "os \<Rightarrow> call list \<Rightarrow> event list \<Rightarrow> error option \<times> event list" where
  "tryAll E [] tr = (None, tr)"
| "tryAll E (c # cs) tr =
     (case sys E (callsOf tr) c of
        Some err \<Rightarrow> (Some err, tr @ [Call c])
      | None \<Rightarrow> tryAll E cs (tr @ [Call c]))"

text \<open>
  A step of the form \<^verbatim>\<open>if err := step(); err != nil { fmt.Printf(...) }\<close>: the error
  is printed and the command goes on.
\<close>

definition attempt ::
  "os \<Rightarrow> call \<Rightarrow> string \<Rightarrow> (error \<Rightarrow> fmtarg list) \<Rightarrow> event list \<Rightarrow> event list" where
  "attempt E c format args tr =
     (case sys E (callsOf tr) c of
        None \<Rightarrow> tr @ [Call c]
      | Some err \<Rightarrow> tr @ [Call c, Printf format (args err)])"

section \<open>initOLDir\<close>

text \<open>The three \<^verbatim>\<open>mknod\<close> commands of lines 159 to 172, in order.\<close>

definition devNodes :: "filepath \<Rightarrow> string \<Rightarrow> call list" where
  "devNodes fp base =
     [Command ''mknod'' [''-m'', ''0644'', Join fp [base, ''dev'', ''null''], ''c'', ''1'', ''3''],
      Command ''mknod'' [''-m'', ''0644'', Join fp [base, ''dev'', ''random''], ''c'', ''1'', ''8''],
      Command ''mknod'' [''-m'', ''0644'', Join fp [base, ''dev'', ''urandom''], ''c'', ''1'', ''9'']]"

text \<open>The four lines printed at the end of a successful \<^verbatim>\<open>initOLDir\<close> (lines 174 to 177).\<close>

definition initSummary :: "os \<Rightarrow> string \<Rightarrow> string \<Rightarrow> call list \<Rightarrow> event list" where
  "initSummary E olPath confPath h =
     [Printf ''Working Directory: %s\<newline>\<newline>'' [ArgS olPath],
      Printf ''Worker Defaults: \<newline>%s\<newline>\<newline>'' [ArgS (DumpConfStr E h)],
      Printf ''You may modify the defaults here: %s\<newline>\<newline>'' [ArgS confPath],
      Printf ''You may now start a server using the \"ol worker\" command\<newline>'' []]"

text \<open>
  \<^verbatim>\<open>initOLDir(olPath, dockerBaseImage)\<close>, lines 99 to 180.  Every step but the
  printing returns at its first error.
\<close>

definition initOLDir :: "filepath \<Rightarrow> os \<Rightarrow> string \<Rightarrow> string \<Rightarrow> error option \<times> event list" where
  "initOLDir fp E olPath img =
     (let dockerBaseImage = (if img = [] then ''ol-wasm'' else img);
          tr0 = [Printf ''Init OL dir at %v, using Docker image %v as base\<newline>''
                   [ArgS olPath, ArgS dockerBaseImage]]
      in case tryAll E [Mkdir olPath 0x1C0, LoadDefaults olPath] tr0 of
           (Some err, tr1) \<Rightarrow> (Some err, tr1)
         | (None, tr1) \<Rightarrow>
     (let cfg = Conf E (callsOf tr1);
          confPath = Join fp [olPath, ''config.json'']
      in case tryAll E [SaveConf confPath, Mkdir (Worker_dir cfg) 0x1C0,
                        Mkdir (Registry cfg) 0x1C0, NewClientFromEnv] tr1 of
           (Some err, tr2) \<Rightarrow> (Some err, tr2)
         | (None, tr2) \<Rightarrow>
     (let base = SOCK_base_path cfg;
          tr3 = tr2 @ [Printf ''Creating lambda base at %v (may take several minutes)\<newline>''
                         [ArgS base]]
      in case tryAll E ([DumpDockerImage dockerBaseImage base,
                         Mkdir (Join fp [base, ''handler'']) 0x1C0,
                         Mkdir (Join fp [base, ''host'']) 0x1C0,
                         Mkdir (Join fp [base, ''packages'']) 0x1C0,
                         SysWriteFile (Join fp [base, ''etc'', ''resolv.conf''])
                           ''nameserver 8.8.8.8\<newline>'' 0x1A4]
                        @ devNodes fp base) tr3 of
           (Some err, tr4) \<Rightarrow> (Some err, tr4)
         | (None, tr4) \<Rightarrow> (None, tr4 @ initSummary E olPath confPath (callsOf tr4)))))"

section \<open>The readiness loop of up\<close>

text \<open>
  What the loop of lines 309 to 349 observes in its attempt number \<open>i\<close>: \<open>died\<close> is
  the non-blocking receive from the channel \<^verbatim>\<open>died\<close> (\<open>None\<close> when nothing was
  sent, otherwise the error of \<^verbatim>\<open>proc.Wait()\<close>, which may be \<^verbatim>\<open>nil\<close>);
  \<open>httpGet\<close> is the answer of \<^verbatim>\<open>http.Get\<close>, the error or the bytes that
  \<^verbatim>\<open>ioutil.ReadAll\<close> read from the body (its own error is overwritten unread in
  line 338).  \<^verbatim>\<open>strings.TrimSpace\<close> is a parameter.
\<close>

record pollEnv =
  died :: "nat \<Rightarrow> error option option"
  httpGet :: "nat \<Rightarrow> error + string"

text \<open>
  Lines 307 to 351 of \<^verbatim>\<open>up\<close>, entered with \<open>i = 0\<close>, \<open>pingErr = None\<close> and the empty
  trace: \<open>pid\<close> is \<^verbatim>\<open>proc.Pid\<close>, \<open>port\<close> is \<^verbatim>\<open>common.Conf.Worker_port\<close>.  The
  result of the zero signal of line 321 is not used.  The deferred
  \<^verbatim>\<open>response.Body.Close()\<close> runs when \<^verbatim>\<open>up\<close> returns.
\<close>

function up_poll ::
  "(string \<Rightarrow> string) \<Rightarrow> pollEnv \<Rightarrow> int \<Rightarrow> string \<Rightarrow> nat \<Rightarrow> error option \<Rightarrow> event list
   \<Rightarrow> error option \<times> event list" where
  "up_poll TrimSpace E pid port i pingErr tr =
     (if i < 300 then
        (case died E i of
           Some (Some err) \<Rightarrow> (Some err, tr)
         | Some None \<Rightarrow>
             (Some (Errorf ''worker process %d does not a appear to be running, check worker.out''
                      [ArgD pid]), tr)
         | None \<Rightarrow>
             (let url = ''http://localhost:'' @ port @ ''/pid'';
                  tr1 = tr @ [Call (Signal pid 0), Call (HttpGet url)]
              in case httpGet E i of
                   Inl err \<Rightarrow>
                     up_poll TrimSpace E pid port (i + 1) (Some err) (tr1 @ [Call (Sleep 100)])
                 | Inr body \<Rightarrow>
                     (case Atoi (TrimSpace body) of
                        Inl err \<Rightarrow>
                          (Some (Errorf ''/pid did not return an int :: %s'' [ArgE (Some err)]),
                           tr1 @ [Call BodyClose])
                      | Inr rpid \<Rightarrow>
                          if rpid = pid
                          then (None, tr1 @ [Printf ''ready\<newline>'' [], Call BodyClose])
                          else (Some (Errorf ''expected PID %v but found %v (port conflict?)''
                                        [ArgD pid, ArgD rpid]),
                                tr1 @ [Call BodyClose]))))
      else (Some (Errorf ''worker still not reachable after 30 seconds :: %s'' [ArgE pingErr]),
            tr))"
  by pat_completeness auto
termination
  by (relation "measure (\<lambda>(T, E, pid, port, i, pingErr, tr). 300 - i)") auto

section \<open>down\<close>

text \<open>
  What \<^verbatim>\<open>down\<close> meets: \<open>loadConf\<close> is \<^verbatim>\<open>common.LoadConf\<close> with the configuration
  it leaves in \<^verbatim>\<open>common.Conf\<close>, \<open>readFile\<close> is \<^verbatim>\<open>ioutil.ReadFile\<close>, \<open>sigint\<close> the
  result of \<^verbatim>\<open>p.Signal(syscall.SIGINT)\<close>, and \<open>probe i\<close> the result of the zero signal
  in round \<open>i\<close> of the loop.  On Linux \<^verbatim>\<open>os.FindProcess\<close> always succeeds, so the
  branch of lines 385 to 388 is never taken.
\<close>

record downEnv =
  loadConf :: "string \<Rightarrow> error + Config"
  readFile :: "string \<Rightarrow> error + string"
  sigint :: "int \<Rightarrow> error option"
  probe :: "nat \<Rightarrow> error option"

text \<open>The loop of lines 394 to 403.\<close>

function down_wait :: "downEnv \<Rightarrow> int \<Rightarrow> nat \<Rightarrow> event list \<Rightarrow> error option \<times> event list" where
  "down_wait E pid i tr =
     (if i < 300 then
        (case probe E i of
           Some err \<Rightarrow>
             (None, tr @ [Call (Signal pid 0),
                          Printf ''OL worker process stopped successfully\<newline>'' []])
         | None \<Rightarrow> down_wait E pid (i + 1) (tr @ [Call (Signal pid 0), Call (Sleep 100)]))
      else (Some (Errorf ''worker didn't stop after 30s'' []), tr))"
  by pat_completeness auto
termination
  by (relation "measure (\<lambda>(E, pid, i, tr). 300 - i)") auto

text \<open>
  \<^verbatim>\<open>down\<close>, lines 362 to 404; the first argument of the model after the
  parameters is the result of \<^verbatim>\<open>common.GetOlPath(ctx)\<close>.
\<close>

definition down :: "filepath \<Rightarrow> downEnv \<Rightarrow> error + string \<Rightarrow> error option \<times> event list" where
  "down fp E olPathRes =
     (case olPathRes of
        Inl err \<Rightarrow> (Some err, [])
      | Inr olPath \<Rightarrow>
     (let configPath = Join fp [olPath, ''config.json'']
      in case loadConf E configPath of
        Inl err \<Rightarrow> (Some err, [Call (LoadConf configPath)])
      | Inr cfg \<Rightarrow>
     (let pidPath = Join fp [Worker_dir cfg, ''worker.pid''];
          tr0 = [Call (LoadConf configPath), Call (SysReadFile pidPath)]
      in case readFile E pidPath of
        Inl err \<Rightarrow> (Some err, tr0)
      | Inr data \<Rightarrow>
     (case Atoi data of
        Inl err \<Rightarrow> (Some err, tr0)
      | Inr pid \<Rightarrow>
     (let tr1 = tr0 @ [Printf ''Killing worker process with PID %d\<newline>'' [ArgD pid],
                       Call (Signal pid 2)];
          tr2 = (case sigint E pid of
                   None \<Rightarrow> tr1
                 | Some err \<Rightarrow>
                     tr1 @ [Printf ''%s\<newline>'' [ArgE (Some err)],
                            Printf ''Failed to kill process with PID %d.  May require manual cleanup.\<newline>''
                              [ArgD pid]])
      in down_wait E pid 0 tr2)))))"

section \<open>cleanup\<close>

text \<open>The loop of lines 424 to 432 over the entries of the cgroup root.\<close>

fun removeCgroups :: "filepath \<Rightarrow> os \<Rightarrow> string \<Rightarrow> string list \<Rightarrow> event list \<Rightarrow> event list" where
  "removeCgroups fp E cgRoot [] tr = tr"
| "removeCgroups fp E cgRoot (name # files) tr =
     (if prefix ''cg-'' name then
        (let cg = Join fp [cgRoot, name];
             tr1 = tr @ [Printf ''try removing %s\<newline>'' [ArgS cg]];
             tr2 = attempt E (Rmdir cg)
                     ''could remove cgroup: %s\<newline>'' (\<lambda>err. [ArgE (Some err)]) tr1
         in removeCgroups fp E cgRoot files tr2)
      else removeCgroups fp E cgRoot files tr)"

text \<open>The loop of lines 445 to 455 over the entries of the mount root.\<close>

fun unmountAll :: "filepath \<Rightarrow> os \<Rightarrow> string \<Rightarrow> string list \<Rightarrow> event list \<Rightarrow> event list" where
  "unmountAll fp E dirName [] tr = tr"
| "unmountAll fp E dirName (name # files) tr =
     (let path = Join fp [dirName, name];
          tr1 = tr @ [Printf ''try unmounting %s\<newline>'' [ArgS path]];
          tr2 = attempt E (Unmount path 2)
                  ''could not unmount: %s\<newline>'' (\<lambda>err. [ArgE (Some err)]) tr1;
          tr3 = attempt E (Rmdir path)
                  ''could remove mount dir: %s\<newline>'' (\<lambda>err. [ArgE (Some err)]) tr2
      in unmountAll fp E dirName files tr3)"

text \<open>
  \<^verbatim>\<open>cleanup\<close>, lines 407 to 467; the argument after the parameters is the result of
  \<^verbatim>\<open>common.GetOlPath(ctx)\<close>.
\<close>

definition cleanup :: "filepath \<Rightarrow> os \<Rightarrow> error + string \<Rightarrow> error option \<times> event list" where
  "cleanup fp E olPathRes =
     (case olPathRes of
        Inl err \<Rightarrow> (Some err, [])
      | Inr olPath \<Rightarrow>
     (let cgRoot = Join fp [''/sys'', ''fs'', ''cgroup'', Base fp olPath @ ''-sandboxes''];
          tr0 = [Printf ''ATTEMPT to cleanup cgroups at %s\<newline>'' [ArgS cgRoot]];
          tr1 = (case readDir E (callsOf tr0) cgRoot of
                   Inl err \<Rightarrow>
                     tr0 @ [Call (ReadDir cgRoot),
                            Printf ''could not find cgroup root: %s\<newline>'' [ArgE (Some err)]]
                 | Inr files \<Rightarrow>
                     (let kill = Join fp [cgRoot, ''cgroup.kill''];
                          ta = attempt E (SysWriteFile kill ''1'' 0x40000000)
                                 ''could kill processes in cgroup: %s\<newline>''
                                 (\<lambda>err. [ArgE (Some err)])
                                 (tr0 @ [Call (ReadDir cgRoot)]);
                          tb = removeCgroups fp E cgRoot files ta
                      in attempt E (Rmdir cgRoot)
                           ''could remove cgroup root: %s\<newline>'' (\<lambda>err. [ArgE (Some err)])
                           tb));
          dirName = Join fp [olPath, ''worker'', ''root-sandboxes''];
          tr2 = tr1 @ [Printf ''ATTEMPT to cleanup mounts at %s\<newline>'' [ArgS dirName]];
          tr3 = (case readDir E (callsOf tr2) dirName of
                   Inl err \<Rightarrow>
                     tr2 @ [Call (ReadDir dirName),
                            Printf ''could not find mount root: %s\<newline>'' [ArgE (Some err)]]
                 | Inr files \<Rightarrow> unmountAll fp E dirName files (tr2 @ [Call (ReadDir dirName)]));
          tr4 = attempt E (Unmount dirName 2)
                  ''could not unmount %s: %s\<newline>'' (\<lambda>err. [ArgS dirName, ArgE (Some err)])
                  tr3;
          tr5 = attempt E (Remove (Join fp [olPath, ''worker'', ''worker.pid'']))
                  ''could not remove worker.pid: %s\<newline>'' (\<lambda>err. [ArgE (Some err)])
                  tr4
      in (None, tr5)))"

section \<open>Vocabulary of the statements\<close>

text \<open>
  A dotted key resolves in a configuration when every key but the last names a
  nested map and the last key exists in the map reached.
\<close>

fun resolves :: "conf \<Rightarrow> string list \<Rightarrow> bool" where
  "resolves c [] = False"
| "resolves c [key] = (c key \<noteq> None)"
| "resolves c (k # ks) = (case c k of Some (VMap v) \<Rightarrow> resolves v ks | _ \<Rightarrow> False)"

text \<open>The leaf that a dotted key names in a configuration, if it resolves.\<close>

fun leafAt :: "conf \<Rightarrow> string list \<Rightarrow> any option" where
  "leafAt c [] = None"
| "leafAt c [key] = c key"
| "leafAt c (k # ks) = (case c k of Some (VMap v) \<Rightarrow> leafAt v ks | _ \<Rightarrow> None)"

text \<open>An event that is an attempt to reach the worker: a call of \<^verbatim>\<open>http.Get\<close>.\<close>

fun isAttempt :: "event \<Rightarrow> bool" where
  "isAttempt (Call (HttpGet _)) = True"
| "isAttempt _ = False"

text \<open>
  The events of one round of the readiness loop in which the connection fails: the
  zero signal, the request, the sleep of 100 milliseconds.  The events of one round
  of the loop of \<^verbatim>\<open>down\<close> in which the process is still there: the zero signal and
  the sleep.
\<close>

definition pollRound :: "int \<Rightarrow> string \<Rightarrow> event list" where
  "pollRound pid port = [Call (Signal pid 0), Call (HttpGet (''http://localhost:'' @ port @ ''/pid'')), Call (Sleep 100)]"

definition probeRound :: "int \<Rightarrow> event list" where
  "probeRound pid = [Call (Signal pid 0), Call (Sleep 100)]"

text \<open>
  What an error says: its format string (the message of an opaque error), its
  arguments, and whether it names a process or advises the operator to act by
  hand.  An error names a PID when the PID is one of its arguments or when the
  decimal digits of the PID stand in its text.
\<close>

fun errorFormat :: "error \<Rightarrow> string" where
  "errorFormat (Errorf f args) = f"
| "errorFormat (NumError fn num e) = []"
| "errorFormat (Opaque m) = m"

fun errorArgs :: "error \<Rightarrow> fmtarg list" where
  "errorArgs (Errorf f args) = args"
| "errorArgs (NumError fn num e) = [ArgS fn, ArgS num]"
| "errorArgs (Opaque m) = []"

function decimal :: "nat \<Rightarrow> string" where
  "decimal n = (if n < 10 then [''0123456789'' ! n]
                else decimal (n div 10) @ [''0123456789'' ! (n mod 10)])"
  by pat_completeness auto
termination
  by (relation "measure id") auto

definition namesPID :: "error \<Rightarrow> int \<Rightarrow> bool" where
  "namesPID e pid = (ArgD pid \<in> set (errorArgs e) \<or> sublist (decimal (nat pid)) (errorFormat e))"

definition advisesManual :: "error \<Rightarrow> bool" where
  "advisesManual e = sublist ''manual'' (ToLower (errorFormat e))"

text \<open>
  A run of calls seen from the world alone: the calls are made in order, each
  after the history \<open>h\<close> of the calls before it, up to the first error.  The
  result is that error, if any, and the history at the end.
\<close>

fun runCalls :: "os \<Rightarrow> call list \<Rightarrow> call list \<Rightarrow> error option \<times> call list" where
  "runCalls E h [] = (None, h)"
| "runCalls E h (c # cs) =
     (case sys E h c of
        Some err \<Rightarrow> (Some err, h @ [c])
      | None \<Rightarrow> runCalls E (h @ [c]) cs)"

text \<open>
  The calls that \<^verbatim>\<open>initOLDir\<close> makes when none fails, in order, for the
  configuration \<open>cfg\<close> that \<^verbatim>\<open>common.LoadDefaults\<close> leaves in \<^verbatim>\<open>common.Conf\<close>.
\<close>

definition initCalls :: "filepath \<Rightarrow> Config \<Rightarrow> string \<Rightarrow> string \<Rightarrow> call list" where
  "initCalls fp cfg olPath img =
     [Mkdir olPath 0x1C0, LoadDefaults olPath,
      SaveConf (Join fp [olPath, ''config.json'']),
      Mkdir (Worker_dir cfg) 0x1C0, Mkdir (Registry cfg) 0x1C0, NewClientFromEnv,
      DumpDockerImage (if img = [] then ''ol-wasm'' else img) (SOCK_base_path cfg),
      Mkdir (Join fp [SOCK_base_path cfg, ''handler'']) 0x1C0,
      Mkdir (Join fp [SOCK_base_path cfg, ''host'']) 0x1C0,
      Mkdir (Join fp [SOCK_base_path cfg, ''packages'']) 0x1C0,
      SysWriteFile (Join fp [SOCK_base_path cfg, ''etc'', ''resolv.conf''])
        ''nameserver 8.8.8.8\<newline>'' 0x1A4,
      Command ''mknod'' [''-m'', ''0644'', Join fp [SOCK_base_path cfg, ''dev'', ''null''], ''c'', ''1'', ''3''],
      Command ''mknod'' [''-m'', ''0644'', Join fp [SOCK_base_path cfg, ''dev'', ''random''], ''c'', ''1'', ''8''],
      Command ''mknod'' [''-m'', ''0644'', Join fp [SOCK_base_path cfg, ''dev'', ''urandom''], ''c'', ''1'', ''9'']]"

text \<open>
  The calls that \<^verbatim>\<open>cleanup\<close> is to make, phase by phase.  They depend on what the
  two directory listings return and on nothing else: no error of a call removes a
  later call.
\<close>

definition cgroupPlan :: "filepath \<Rightarrow> os \<Rightarrow> string \<Rightarrow> call list" where
  "cgroupPlan fp E olPath =
     (let cgRoot = Join fp [''/sys'', ''fs'', ''cgroup'', Base fp olPath @ ''-sandboxes'']
      in ReadDir cgRoot #
         (case readDir E [] cgRoot of
            Inl err \<Rightarrow> []
          | Inr files \<Rightarrow>
              SysWriteFile (Join fp [cgRoot, ''cgroup.kill'']) ''1'' 0x40000000 #
              map (\<lambda>name. Rmdir (Join fp [cgRoot, name])) (filter (prefix ''cg-'') files)
              @ [Rmdir cgRoot]))"

definition mountPlan :: "filepath \<Rightarrow> os \<Rightarrow> string \<Rightarrow> call list \<Rightarrow> call list" where
  "mountPlan fp E olPath h =
     (let dirName = Join fp [olPath, ''worker'', ''root-sandboxes'']
      in ReadDir dirName #
         (case readDir E h dirName of
            Inl err \<Rightarrow> []
          | Inr files \<Rightarrow>
              concat (map (\<lambda>name. [Unmount (Join fp [dirName, name]) 2,
                                    Rmdir (Join fp [dirName, name])]) files))
         @ [Unmount dirName 2])"

definition cleanupPlan :: "filepath \<Rightarrow> os \<Rightarrow> string \<Rightarrow> call list" where
  "cleanupPlan fp E olPath =
     cgroupPlan fp E olPath
     @ mountPlan fp E olPath (cgroupPlan fp E olPath)
     @ [Remove (Join fp [olPath, ''worker'', ''worker.pid''])]"

text \<open>
  What a trace says about its calls, and what the world returns for them.
  \<open>outcomesIn\<close> pairs every call of a trace with the error that the line printed
  right after it carries (\<open>None\<close> when the next event is no such line).  \<open>annotate\<close>
  pairs every call of a list, made in order after the history \<open>h\<close>, with the error
  the world returns for it: for a listing the error of \<^verbatim>\<open>ioutil.ReadDir\<close>, for any
  other call the error of the call.
\<close>

fun firstError :: "fmtarg list \<Rightarrow> error option" where
  "firstError [] = None"
| "firstError (ArgE (Some err) # args) = Some err"
| "firstError (_ # args) = firstError args"

fun reported :: "event list \<Rightarrow> error option" where
  "reported (Printf format args # es) = firstError args"
| "reported _ = None"

fun outcomesIn :: "event list \<Rightarrow> (call \<times> error option) list" where
  "outcomesIn [] = []"
| "outcomesIn (Printf format args # es) = outcomesIn es"
| "outcomesIn (Call c # es) = (c, reported es) # outcomesIn es"

fun outcome :: "os \<Rightarrow> call list \<Rightarrow> call \<Rightarrow> error option" where
  "outcome E h (ReadDir dir) = (case readDir E h dir of Inl err \<Rightarrow> Some err | Inr _ \<Rightarrow> None)"
| "outcome E h c = sys E h c"

fun annotate :: "os \<Rightarrow> call list \<Rightarrow> call list \<Rightarrow> (call \<times> error option) list" where
  "annotate E h [] = []"
| "annotate E h (c # cs) = (c, outcome E h c) # annotate E (h @ [c]) cs"

section \<open>Sample inputs\<close>

text \<open>
  Concrete inputs on which the theorems below are instantiated.  \<open>trimASCII\<close> removes
  the ASCII white space at both ends of a string and stands for
  \<^verbatim>\<open>strings.TrimSpace\<close>; \<open>refused\<close> is the error of a connection that nobody
  accepts.  \<open>upAfterTwo\<close> is a worker that answers the third request with its PID
  \<open>4242\<close>, \<open>neverUp\<close> one that never listens, \<open>notYetInitialized\<close> one whose second
  answer is not a number.
\<close>

definition isSpaceASCII :: "char \<Rightarrow> bool" where
  "isSpaceASCII c = (c \<in> set [CHR 0x09, CHR 0x0A, CHR 0x0B, CHR 0x0C, CHR 0x0D, CHR '' ''])"

definition trimASCII :: "string \<Rightarrow> string" where
  "trimASCII s = rev (dropWhile isSpaceASCII (rev (dropWhile isSpaceASCII s)))"

definition refused :: error where
  "refused = Opaque ''dial tcp 127.0.0.1:5000: connect: connection refused''"

definition upAfterTwo :: pollEnv where
  "upAfterTwo = \<lparr>died = (\<lambda>i. None),
                  httpGet = (\<lambda>i. if i < 2 then Inl refused else Inr ''4242\<newline>'')\<rparr>"

definition neverUp :: pollEnv where
  "neverUp = \<lparr>died = (\<lambda>i. None), httpGet = (\<lambda>i. Inl refused)\<rparr>"

definition notYetInitialized :: pollEnv where
  "notYetInitialized = \<lparr>died = (\<lambda>i. None),
                  httpGet = (\<lambda>i. if i < 1 then Inl refused else Inr ''starting'')\<rparr>"

text \<open>
  A configuration file with a string, a number and a nested boolean.
  \<open>sampleUnmarshal\<close> decodes the text of that file; \<open>sampleMarshalIndent\<close> is a
  stand-in for the encoder that writes the worker port only.
\<close>

definition sampleText :: string where
  "sampleText = ''{\"worker_port\": \"5000\", \"mem_pool_mb\": 1024, \"features\": {\"import_cache\": true}}''"

definition sampleConf :: conf where
  "sampleConf = [''worker_port'' \<mapsto> VString ''5000'',
                 ''mem_pool_mb'' \<mapsto> VFloat64 1024,
                 ''features'' \<mapsto> VMap [''import_cache'' \<mapsto> VBool True]]"

definition sampleUnmarshal :: "string \<Rightarrow> error + conf" where
  "sampleUnmarshal b =
     (if b = sampleText then Inr sampleConf else Inl (Opaque ''unexpected end of JSON input''))"

definition sampleMarshalIndent :: "conf \<Rightarrow> string \<Rightarrow> string \<Rightarrow> error + string" where
  "sampleMarshalIndent c pre indent =
     (case c ''worker_port'' of
        Some (VString p) \<Rightarrow> Inr (''worker_port='' @ p)
      | _ \<Rightarrow> Inl (Opaque ''json: unsupported value''))"

definition sampleFS :: filesystem where
  "sampleFS = \<lparr>node = (\<lambda>name. if name = ''config.json'' then 1
                              else if name = ''config.json.overrides'' then 2 else 0),
                content = (\<lambda>f. if f = 1 then Inr sampleText
                               else Inl (Opaque ''no such file or directory'')),
                openFails = (\<lambda>name. None),
                writeStops = (\<lambda>name. None)\<rparr>"



text \<open>
  Paths joined with a slash, the last element of a path, and the configuration of
  an environment at \<^verbatim>\<open>/ol\<close>.
\<close>

definition slashJoin :: "string list \<Rightarrow> string" where
  "slashJoin elems = foldr (\<lambda>e rest. if rest = [] then e else e @ CHR ''/'' # rest) elems []"

definition lastElem :: "string \<Rightarrow> string" where
  "lastElem path = last (Split path CHR ''/'')"

definition slashPaths :: filepath where
  "slashPaths = \<lparr>Join = slashJoin, Base = lastElem\<rparr>"

definition sampleConfig :: Config where
  "sampleConfig = \<lparr>Worker_dir = ''/ol/worker'', Registry = ''/ol/registry'',
                    SOCK_base_path = ''/ol/lambda'', Worker_port = ''5000''\<rparr>"

text \<open>
  \<open>stubbornWorker\<close>: the PID file holds \<open>4242\<close>, the interrupt is delivered, and the
  process answers every zero signal.
\<close>

definition stubbornWorker :: downEnv where
  "stubbornWorker = \<lparr>loadConf = (\<lambda>path. Inr sampleConfig),
                      readFile = (\<lambda>path. Inr ''4242''),
                      sigint = (\<lambda>pid. None),
                      probe = (\<lambda>i. None)\<rparr>"

text \<open>
  \<open>obligingOS\<close>: every call succeeds.  \<open>noRandom\<close>: every call succeeds but the
  \<^verbatim>\<open>mknod\<close> of \<^verbatim>\<open>dev/random\<close>.  \<open>noDirs\<close>: no directory can be listed and every call
  fails.  \<open>refusingOS\<close>: both directories are listed, with one cgroup and one
  sandbox left over, and every other call fails.
\<close>

definition obligingOS :: os where
  "obligingOS = \<lparr>sys = (\<lambda>h c. None),
                  readDir = (\<lambda>h dir. Inr []),
                  Conf = (\<lambda>h. sampleConfig),
                  DumpConfStr = (\<lambda>h. [])\<rparr>"

definition noRandom :: os where
  "noRandom = obligingOS\<lparr>sys := (\<lambda>h c.
       if c = Command ''mknod'' [''-m'', ''0644'', ''/ol/lambda/dev/random'', ''c'', ''1'', ''8'']
       then Some (Opaque ''exit status 1'') else None)\<rparr>"

definition noDirs :: os where
  "noDirs = \<lparr>sys = (\<lambda>h c. Some (Opaque ''no such file or directory'')),
              readDir = (\<lambda>h dir. Inl (Opaque ''no such file or directory'')),
              Conf = (\<lambda>h. sampleConfig),
              DumpConfStr = (\<lambda>h. [])\<rparr>"

definition refusingOS :: os where
  "refusingOS = \<lparr>sys = (\<lambda>h c. Some (Opaque ''operation not permitted'')),
                  readDir = (\<lambda>h dir. if dir = ''/sys/fs/cgroup/ol-sandboxes''
                                        then Inr [''cg-7'', ''cgroup.kill''] else Inr [''sb-7'']),
                  Conf = (\<lambda>h. sampleConfig),
                  DumpConfStr = (\<lambda>h. [])\<rparr>"

section \<open>Properties of overrideOpts\<close>

lemma Split_not_Nil: "Split s sep \<noteq> []"
  by (induction s) (auto split: list.splits)

lemma coerce_not_map:
  assumes "coerce prev key val = Inr v"
  shows "v \<noteq> VMap m" and "prev \<noteq> VMap m'"
  using assms by (cases prev; simp split: sum.splits if_splits; blast)+

lemma path_cases:
  obtains "path = []" | p where "path = [p]" | p q rest where "path = p # q # rest"
  by (cases path; cases "tl path") auto

lemma applyKeys_unresolved:
  "\<not> resolves c ks \<Longrightarrow> \<exists>err. applyKeys c ks val = Inl err"
proof (induction c ks val rule: applyKeys.induct)
  case (1 c val)
  then show ?case by simp
next
  case (2 c key val)
  then show ?case by simp
next
  case (3 c k k' ks val)
  then show ?case
    by (auto split: option.splits any.splits sum.splits)
qed

lemma applyKeys_resolves:
  "applyKeys c ks val = Inr c' \<Longrightarrow> resolves c' path = resolves c path"
proof (induction c ks val arbitrary: c' path rule: applyKeys.induct)
  case (1 c val)
  then show ?case by simp
next
  case (2 c key val)
  then obtain prev v where p: "c key = Some prev" "coerce prev key val = Inr v" "c' = c(key \<mapsto> v)"
    by (auto split: option.splits sum.splits)
  have nm: "\<And>m. v \<noteq> VMap m" "\<And>m. prev \<noteq> VMap m"
    using coerce_not_map[OF p(2)] by auto
  show ?case
  proof (cases path rule: path_cases)
    case 1
    then show ?thesis by simp
  next
    case (2 p)
    then show ?thesis using p by simp
  next
    case (3 p q rest)
    then show ?thesis using p nm
      by (cases v; cases prev) (auto split: option.splits any.splits)
  qed
next
  case (3 c k k' ks val)
  then obtain m m' where q: "c k = Some (VMap m)" "applyKeys m (k' # ks) val = Inr m'"
      "c' = c(k \<mapsto> VMap m')"
    by (auto split: option.splits any.splits sum.splits)
  have ih: "\<And>path. resolves m' path = resolves m path"
    using "3.IH"[OF q(1) refl q(2)] .
  show ?case
  proof (cases path rule: path_cases)
    case 1
    then show ?thesis by simp
  next
    case (2 p)
    then show ?thesis using q by simp
  next
    case (3 p q' rest)
    then show ?thesis using q ih
      by (auto split: option.splits any.splits)
  qed
qed

lemma applyOpt_resolves:
  "applyOpt c opt = Inr c' \<Longrightarrow> resolves c' path = resolves c path"
  by (auto simp: applyOpt_def Let_def split: if_splits dest: applyKeys_resolves)

lemma applyOpts_unresolved:
  assumes "opt \<in> set opts" and "Split opt CHR ''='' = [k, v]"
    and "\<not> resolves c (Split k CHR ''.'')"
  shows "\<exists>err. applyOpts c opts = Inl err"
  using assms
proof (induction opts arbitrary: c)
  case Nil
  then show ?case by simp
next
  case (Cons o1 opts)
  show ?case
  proof (cases "applyOpt c o1")
    case (Inl e)
    then show ?thesis by simp
  next
    case (Inr c1)
    have "o1 \<noteq> opt"
    proof
      assume "o1 = opt"
      then have "applyOpt c o1 = applyKeys c (Split k CHR ''.'') v"
        using Cons.prems(2) by (simp add: applyOpt_def)
      with applyKeys_unresolved[OF Cons.prems(3), of v] Inr show False by auto
    qed
    with Cons.prems(1) have "opt \<in> set opts" by auto
    moreover have "\<not> resolves c1 (Split k CHR ''.'')"
      using applyOpt_resolves[OF Inr] Cons.prems(3) by simp
    ultimately have "\<exists>err. applyOpts c1 opts = Inl err"
      using Cons.IH Cons.prems(2) by blast
    then show ?thesis using Inr by simp
  qed
qed

text \<open>
  One pair on any configuration: when the dotted key names a leaf, the result of
  the pair is the result of the type switch on that leaf, and on success the leaf
  holds the coerced value.  A leaf of dynamic type \<^verbatim>\<open>int\<close> is refused.
\<close>

lemma resolves_leafAt: "resolves c keys = (leafAt c keys \<noteq> None)"
  by (induction c keys rule: resolves.induct) (auto split: option.splits any.splits)

lemma applyKeys_coerces:
  assumes "leafAt c keys = Some prev"
  shows "case coerce prev (last keys) val of
           Inl err \<Rightarrow> applyKeys c keys val = Inl err
         | Inr v \<Rightarrow> (\<exists>c'. applyKeys c keys val = Inr c' \<and> leafAt c' keys = Some v)"
  using assms
proof (induction c keys val rule: applyKeys.induct)
  case (1 c val)
  then show ?case by simp
next
  case (2 c key val)
  then show ?case by (simp split: sum.splits)
next
  case (3 c k k' ks val)
  from "3.prems" obtain m where m: "c k = Some (VMap m)" "leafAt m (k' # ks) = Some prev"
    by (auto split: option.splits any.splits)
  have l: "last (k # k' # ks) = last (k' # ks)" by simp
  have ap: "applyKeys c (k # k' # ks) val =
            (case applyKeys m (k' # ks) val of
               Inl err \<Rightarrow> Inl err
             | Inr m' \<Rightarrow> Inr (c(k \<mapsto> VMap m')))"
    using m(1) by simp
  note ih = "3.IH"[OF m(1) refl m(2)]
  show ?case
  proof (cases "coerce prev (last (k' # ks)) val")
    case (Inl err)
    with ih have "applyKeys m (k' # ks) val = Inl err" by (simp del: last.simps applyKeys.simps)
    with Inl show ?thesis unfolding l ap by (simp del: last.simps applyKeys.simps)
  next
    case (Inr v)
    with ih obtain m' where m': "applyKeys m (k' # ks) val = Inr m'" "leafAt m' (k' # ks) = Some v"
      by (auto simp del: last.simps applyKeys.simps)
    have "leafAt (c(k \<mapsto> VMap m')) (k # k' # ks) = Some v"
      using m'(2) by simp
    with Inr m'(1) show ?thesis unfolding l ap by (simp del: last.simps applyKeys.simps leafAt.simps)
  qed
qed

lemma coerce_int_leaf:
  "coerce (VInt n) key val =
     Inl (Errorf ''config values of type %T (%s) must be edited manually in the config file ''
            [ArgT ''int'', ArgS key])"
  by simp

lemmas sample_simps = Atoi_def isDigit_def digitVal_def maxUint64_def ToLower_def lowerByte_def
  applyOpt_def sampleConf_def sampleUnmarshal_def sampleMarshalIndent_def sampleFS_def
  overrideOpts_def ReadFile_def WriteFile_def openTrunc_def writeBytes_def

text \<open>
  C1.  The value of an override is coerced by the category of the leaf it names: a
  string leaf takes the text, a number leaf the value parsed as an integer, a boolean
  leaf \<^verbatim>\<open>true\<close> or \<^verbatim>\<open>false\<close> in any case of letters, and a map, an array or
  \<^verbatim>\<open>null\<close> is an error.  For a leaf as the decoder left it the type switch does
  so (\<open>applyKeys_coerces\<close> and the equations of \<open>coerce\<close>).  The code departs from the
  claim at a number leaf
  that an earlier pair of the same option string has overridden: the leaf then holds
  the \<^verbatim>\<open>int\<close> of \<^verbatim>\<open>strconv.Atoi\<close>, the switch has no case for \<^verbatim>\<open>int\<close>, and the
  second pair is refused although its value parses.  The theorem evaluates
  \<^verbatim>\<open>overrideOpts\<close> on such an option string; the lemma after it shows that the first
  pair alone is applied.
\<close>

theorem overrideOpts_number_twice:
  "overrideOpts sampleUnmarshal sampleMarshalIndent sampleFS ''config.json''
     ''config.json.overrides'' ''mem_pool_mb=2048,mem_pool_mb=4096''
   = (Some (Errorf ''config values of type %T (%s) must be edited manually in the config file ''
              [ArgT ''int'', ArgS ''mem_pool_mb'']),
      sampleFS)"
  by (simp add: sample_simps)

lemma overrideOpts_number_once:
  "applyOpts sampleConf (Split ''mem_pool_mb=2048'' CHR '','')
   = Inr (sampleConf(''mem_pool_mb'' \<mapsto> VInt 2048))"
  by (simp add: sample_simps)

text \<open>
  C2.  Whenever the option string holds a \<^verbatim>\<open>key=val\<close> pair whose dotted key does not
  resolve in the loaded configuration (an intermediate key is missing or is not a
  map, or the last key is missing), \<^verbatim>\<open>overrideOpts\<close> returns an error and leaves
  every file as it was: the output file is not written.
\<close>

theorem overrideOpts_unresolved_key:
  assumes "ReadFile fs confPath = Inr b" and "Unmarshal b = Inr conf"
    and "opt \<in> set (Split optsStr CHR '','')" and "Split opt CHR ''='' = [k, v]"
    and "\<not> resolves conf (Split k CHR ''.'')"
  shows "\<exists>err. overrideOpts Unmarshal MarshalIndent fs confPath overridePath optsStr
           = (Some err, fs)"
proof -
  obtain err where "applyOpts conf (Split optsStr CHR '','') = Inl err"
    using applyOpts_unresolved[OF assms(3,4,5)] by blast
  then show ?thesis
    using assms(1,2) by (simp add: overrideOpts_def)
qed

theorem overrideOpts_unresolved_key_witness:
  "overrideOpts sampleUnmarshal sampleMarshalIndent sampleFS ''config.json''
     ''config.json.overrides'' ''worker_port=6000,features.sandbox=docker''
   = (Some (Errorf (''invalid option: '%s'' @ [CHR 0x27]) [ArgS ''sandbox'']), sampleFS)"
proof -
  have r: "ReadFile sampleFS ''config.json'' = Inr sampleText"
    by (simp add: sampleFS_def ReadFile_def)
  have u: "sampleUnmarshal sampleText = Inr sampleConf"
    by (simp add: sampleUnmarshal_def)
  have m: "''features.sandbox=docker'' \<in> set (Split ''worker_port=6000,features.sandbox=docker'' CHR '','')"
    by simp
  have s: "Split ''features.sandbox=docker'' CHR ''='' = [''features.sandbox'', ''docker'']"
    by simp
  have n: "\<not> resolves sampleConf (Split ''features.sandbox'' CHR ''.'')"
    by (simp add: sampleConf_def)
  obtain err where e: "overrideOpts sampleUnmarshal sampleMarshalIndent sampleFS ''config.json''
       ''config.json.overrides'' ''worker_port=6000,features.sandbox=docker'' = (Some err, sampleFS)"
    using overrideOpts_unresolved_key[where Unmarshal = sampleUnmarshal, OF r u m s n] by blast
  have "fst (overrideOpts sampleUnmarshal sampleMarshalIndent sampleFS ''config.json''
       ''config.json.overrides'' ''worker_port=6000,features.sandbox=docker'')
       = Some (Errorf (''invalid option: '%s'' @ [CHR 0x27]) [ArgS ''sandbox''])"
    by (simp add: sample_simps)
  with e show ?thesis by simp
qed




section \<open>Properties of initOLDir\<close>

lemma callsOf_append: "callsOf (tr @ tr') = callsOf tr @ callsOf tr'"
  by (induction tr rule: callsOf.induct) auto

lemma tryAll_runCalls:
  "map_prod id callsOf (tryAll E cs tr) = runCalls E (callsOf tr) cs"
  by (induction cs arbitrary: tr) (auto simp: callsOf_append split: option.splits)

lemma runCalls_append:
  "runCalls E h (as @ bs) =
     (case runCalls E h as of (Some err, h') \<Rightarrow> (Some err, h') | (None, h') \<Rightarrow> runCalls E h' bs)"
  by (induction as arbitrary: h) (auto split: option.splits)

lemma runCalls_ok:
  "runCalls E h cs = (None, h') \<Longrightarrow>
     h' = h @ cs \<and> (\<forall>j<length cs. sys E (h @ take j cs) (cs ! j) = None)"
proof (induction cs arbitrary: h)
  case Nil
  then show ?case by simp
next
  case (Cons c cs)
  then have c: "sys E h c = None" and r: "runCalls E (h @ [c]) cs = (None, h')"
    by (auto split: option.splits)
  from Cons.IH[OF r] have h': "h' = h @ c # cs"
    and ih: "\<forall>j<length cs. sys E ((h @ [c]) @ take j cs) (cs ! j) = None" by auto
  have "sys E (h @ take j (c # cs)) ((c # cs) ! j) = None" if "j < length (c # cs)" for j
    using that c ih by (cases j) auto
  with h' show ?case by blast
qed

lemma tryAll_cases:
  obtains (fail) err tr' where "tryAll E cs tr = (Some err, tr')"
      "runCalls E (callsOf tr) cs = (Some err, callsOf tr')"
  | (ok) tr' where "tryAll E cs tr = (None, tr')"
      "runCalls E (callsOf tr) cs = (None, callsOf tr')" "callsOf tr' = callsOf tr @ cs"
proof (cases "tryAll E cs tr")
  case (Pair r tr')
  then have rc: "runCalls E (callsOf tr) cs = (r, callsOf tr')"
    using tryAll_runCalls[of E cs tr] by simp
  show ?thesis
  proof (cases r)
    case None
    then show ?thesis using Pair rc runCalls_ok[of E "callsOf tr" cs "callsOf tr'"] ok by simp
  next
    case (Some err)
    then show ?thesis using Pair rc fail by simp
  qed
qed

lemma callsOf_initSummary: "callsOf (initSummary E olPath confPath h) = []"
  by (simp add: initSummary_def)

lemma staged_run:
  assumes "callsOf tr0 = []" and "\<And>h. callsOf [P h] = []" and "\<And>tr. callsOf (S tr) = []"
  shows "map_prod id callsOf
     (case tryAll E A tr0 of
        (Some err, tr1) \<Rightarrow> (Some err, tr1)
      | (None, tr1) \<Rightarrow>
         (case tryAll E (B (callsOf tr1)) tr1 of
            (Some err, tr2) \<Rightarrow> (Some err, tr2)
          | (None, tr2) \<Rightarrow>
             (case tryAll E (C (callsOf tr1)) (tr2 @ [P (callsOf tr1)]) of
                (Some err, tr4) \<Rightarrow> (Some err, tr4)
              | (None, tr4) \<Rightarrow> (None, tr4 @ S tr4))))
   = runCalls E [] (A @ B A @ C A)"
proof (cases rule: tryAll_cases[of E A tr0])
  case (fail err tr1)
  then show ?thesis using assms(1) by (simp add: runCalls_append)
next
  case a: (ok tr1)
  then have h1: "callsOf tr1 = A" using assms(1) by simp
  show ?thesis
  proof (cases rule: tryAll_cases[of E "B A" tr1])
    case (fail err tr2)
    then show ?thesis using a assms(1) h1 by (simp add: runCalls_append)
  next
    case b: (ok tr2)
    have h3: "callsOf (tr2 @ [P A]) = callsOf tr2"
      using assms(2) by (simp add: callsOf_append)
    show ?thesis
    proof (cases rule: tryAll_cases[of E "C A" "tr2 @ [P A]"])
      case (fail err tr4)
      then show ?thesis using a b assms(1) h1 h3 by (simp add: runCalls_append)
    next
      case (ok tr4)
      then show ?thesis using a b assms(1,3) h1 h3
        by (simp add: runCalls_append callsOf_append)
    qed
  qed
qed

lemma initOLDir_runCalls:
  "map_prod id callsOf (initOLDir fp E olPath img)
   = runCalls E [] (initCalls fp (Conf E [Mkdir olPath 0x1C0, LoadDefaults olPath]) olPath img)"
proof -
  let ?A = "[Mkdir olPath 0x1C0, LoadDefaults olPath]"
  let ?image = "if img = [] then ''ol-wasm'' else img"
  let ?B = "\<lambda>h. [SaveConf (Join fp [olPath, ''config.json'']), Mkdir (Worker_dir (Conf E h)) 0x1C0,
                  Mkdir (Registry (Conf E h)) 0x1C0, NewClientFromEnv]"
  let ?C = "\<lambda>h. [DumpDockerImage ?image (SOCK_base_path (Conf E h)),
                  Mkdir (Join fp [SOCK_base_path (Conf E h), ''handler'']) 0x1C0,
                  Mkdir (Join fp [SOCK_base_path (Conf E h), ''host'']) 0x1C0,
                  Mkdir (Join fp [SOCK_base_path (Conf E h), ''packages'']) 0x1C0,
                  SysWriteFile (Join fp [SOCK_base_path (Conf E h), ''etc'', ''resolv.conf''])
                    ''nameserver 8.8.8.8\<newline>'' 0x1A4] @ devNodes fp (SOCK_base_path (Conf E h))"
  let ?P = "\<lambda>h. Printf ''Creating lambda base at %v (may take several minutes)\<newline>''
                  [ArgS (SOCK_base_path (Conf E h))]"
  let ?S = "\<lambda>tr. initSummary E olPath (Join fp [olPath, ''config.json'']) (callsOf tr)"
  let ?tr0 = "[Printf ''Init OL dir at %v, using Docker image %v as base\<newline>''
                   [ArgS olPath, ArgS ?image]]"
  have plan: "initCalls fp (Conf E ?A) olPath img = ?A @ ?B ?A @ ?C ?A"
    by (simp add: initCalls_def devNodes_def)
  have "map_prod id callsOf (initOLDir fp E olPath img) = runCalls E [] (?A @ ?B ?A @ ?C ?A)"
    unfolding initOLDir_def Let_def
    by (rule staged_run[where A = ?A and B = ?B and C = ?C and P = ?P and S = ?S and ?tr0.0 = ?tr0])
       (simp_all add: callsOf_initSummary)
  then show ?thesis by (simp only: plan)
qed

lemma runCalls_stops:
  assumes "runCalls E h pre = (None, h')" and "sys E h' c = Some err"
  shows "runCalls E h (pre @ c # rest) = (Some err, h' @ [c])"
  using assms by (simp add: runCalls_append)

lemma runCalls_suffix_ok:
  assumes "runCalls E h (pre @ suf) = (None, h')"
  shows "runCalls E (h @ pre) suf = (None, h @ pre @ suf)"
proof (cases "runCalls E h pre")
  case (Pair r h1)
  show ?thesis
  proof (cases r)
    case None
    with Pair have h1: "h1 = h @ pre" using runCalls_ok[of E h pre h1] by simp
    from assms Pair None h1 have "runCalls E (h @ pre) suf = (None, h')"
      by (simp add: runCalls_append)
    moreover from assms have "h' = h @ pre @ suf" using runCalls_ok[of E h "pre @ suf" h'] by simp
    ultimately show ?thesis by simp
  next
    case (Some err)
    with assms Pair show ?thesis by (simp add: runCalls_append)
  qed
qed

lemma initCalls_nodes:
  "initCalls fp cfg olPath img = take 11 (initCalls fp cfg olPath img) @ devNodes fp (SOCK_base_path cfg)"
  by (simp add: initCalls_def devNodes_def)

lemma initCalls_node_at:
  "i < 3 \<Longrightarrow> initCalls fp cfg olPath img =
     take (11 + i) (initCalls fp cfg olPath img) @ (devNodes fp (SOCK_base_path cfg) ! i)
       # drop (12 + i) (initCalls fp cfg olPath img)"
proof -
  assume "i < 3"
  then consider "i = 0" | "i = 1" | "i = 2" by arith
  then show ?thesis
    by cases (simp_all add: initCalls_def devNodes_def)
qed

text \<open>
  C9.  The last three calls of \<^verbatim>\<open>initOLDir\<close> are the commands \<^verbatim>\<open>mknod -m 0644\<close> for
  the character devices \<^verbatim>\<open>dev/null\<close> (1, 3), \<^verbatim>\<open>dev/random\<close> (1, 8) and
  \<^verbatim>\<open>dev/urandom\<close> (1, 9) under the base image.  When \<^verbatim>\<open>initOLDir\<close> returns \<^verbatim>\<open>nil\<close>
  all three were run and each returned \<^verbatim>\<open>nil\<close>.  When the steps before one of
  them succeed and that command fails, \<^verbatim>\<open>initOLDir\<close> returns its error and makes no
  further call.
\<close>

theorem initOLDir_device_nodes:
  "(let cfg = Conf E [Mkdir olPath 0x1C0, LoadDefaults olPath];
        nodes = devNodes fp (SOCK_base_path cfg);
        cs = initCalls fp cfg olPath img
    in cs = take 11 cs @ nodes
     \<and> (fst (initOLDir fp E olPath img) = None \<longrightarrow>
            callsOf (snd (initOLDir fp E olPath img)) = take 11 cs @ nodes
          \<and> runCalls E (take 11 cs) nodes = (None, take 11 cs @ nodes))
     \<and> (\<forall>i<3. \<forall>err.
            runCalls E [] (take (11 + i) cs) = (None, take (11 + i) cs)
          \<and> sys E (take (11 + i) cs) (nodes ! i) = Some err \<longrightarrow>
            fst (initOLDir fp E olPath img) = Some err
          \<and> callsOf (snd (initOLDir fp E olPath img)) = take (11 + i) cs @ [nodes ! i]))"
proof -
  define cfg where "cfg = Conf E [Mkdir olPath 0x1C0, LoadDefaults olPath]"
  define nodes where "nodes = devNodes fp (SOCK_base_path cfg)"
  define cs where "cs = initCalls fp cfg olPath img"
  have run: "map_prod id callsOf (initOLDir fp E olPath img) = runCalls E [] cs"
    unfolding cs_def cfg_def by (rule initOLDir_runCalls)
  have shape: "cs = take 11 cs @ nodes"
    unfolding cs_def nodes_def by (rule initCalls_nodes)
  have ok: "callsOf (snd (initOLDir fp E olPath img)) = take 11 cs @ nodes
          \<and> runCalls E (take 11 cs) nodes = (None, take 11 cs @ nodes)"
    if "fst (initOLDir fp E olPath img) = None"
  proof -
    from that run have r: "runCalls E [] cs = (None, callsOf (snd (initOLDir fp E olPath img)))"
      by (cases "initOLDir fp E olPath img") simp
    then have "callsOf (snd (initOLDir fp E olPath img)) = cs"
      using runCalls_ok[of E "[]" cs] by simp
    moreover have "runCalls E ([] @ take 11 cs) nodes = (None, [] @ take 11 cs @ nodes)"
      using r shape runCalls_suffix_ok[of E "[]" "take 11 cs" nodes] by simp
    ultimately show ?thesis using shape by simp
  qed
  have stop: "fst (initOLDir fp E olPath img) = Some err
          \<and> callsOf (snd (initOLDir fp E olPath img)) = take (11 + i) cs @ [nodes ! i]"
    if "i < 3" and "runCalls E [] (take (11 + i) cs) = (None, take (11 + i) cs)"
      and "sys E (take (11 + i) cs) (nodes ! i) = Some err" for i err
  proof -
    have "cs = take (11 + i) cs @ (nodes ! i) # drop (12 + i) cs"
      unfolding cs_def nodes_def using that(1) by (rule initCalls_node_at)
    then have "runCalls E [] cs = runCalls E [] (take (11 + i) cs @ (nodes ! i) # drop (12 + i) cs)"
      by simp
    also have "\<dots> = (Some err, take (11 + i) cs @ [nodes ! i])"
      using that(2,3) by (rule runCalls_stops)
    finally show ?thesis using run
      by (cases "initOLDir fp E olPath img") simp
  qed
  show ?thesis
    unfolding Let_def cfg_def[symmetric] nodes_def[symmetric] cs_def[symmetric]
    using shape ok stop by blast
qed


lemmas init_eval = initOLDir_def initCalls_def devNodes_def initSummary_def Let_def
  obligingOS_def noRandom_def slashPaths_def slashJoin_def sampleConfig_def

theorem initOLDir_device_nodes_witness:
  "callsOf (snd (initOLDir slashPaths obligingOS ''/ol'' [])) =
     [Mkdir ''/ol'' 0x1C0, LoadDefaults ''/ol'', SaveConf ''/ol/config.json'',
      Mkdir ''/ol/worker'' 0x1C0, Mkdir ''/ol/registry'' 0x1C0, NewClientFromEnv,
      DumpDockerImage ''ol-wasm'' ''/ol/lambda'',
      Mkdir ''/ol/lambda/handler'' 0x1C0, Mkdir ''/ol/lambda/host'' 0x1C0,
      Mkdir ''/ol/lambda/packages'' 0x1C0,
      SysWriteFile ''/ol/lambda/etc/resolv.conf'' ''nameserver 8.8.8.8\<newline>'' 0x1A4,
      Command ''mknod'' [''-m'', ''0644'', ''/ol/lambda/dev/null'', ''c'', ''1'', ''3''],
      Command ''mknod'' [''-m'', ''0644'', ''/ol/lambda/dev/random'', ''c'', ''1'', ''8''],
      Command ''mknod'' [''-m'', ''0644'', ''/ol/lambda/dev/urandom'', ''c'', ''1'', ''9'']]
   \<and> fst (initOLDir slashPaths noRandom ''/ol'' []) = Some (Opaque ''exit status 1'')
   \<and> callsOf (snd (initOLDir slashPaths noRandom ''/ol'' [])) =
     [Mkdir ''/ol'' 0x1C0, LoadDefaults ''/ol'', SaveConf ''/ol/config.json'',
      Mkdir ''/ol/worker'' 0x1C0, Mkdir ''/ol/registry'' 0x1C0, NewClientFromEnv,
      DumpDockerImage ''ol-wasm'' ''/ol/lambda'',
      Mkdir ''/ol/lambda/handler'' 0x1C0, Mkdir ''/ol/lambda/host'' 0x1C0,
      Mkdir ''/ol/lambda/packages'' 0x1C0,
      SysWriteFile ''/ol/lambda/etc/resolv.conf'' ''nameserver 8.8.8.8\<newline>'' 0x1A4,
      Command ''mknod'' [''-m'', ''0644'', ''/ol/lambda/dev/null'', ''c'', ''1'', ''3''],
      Command ''mknod'' [''-m'', ''0644'', ''/ol/lambda/dev/random'', ''c'', ''1'', ''8'']]"
proof -
  have good: "fst (initOLDir slashPaths obligingOS ''/ol'' []) = None"
    by (simp add: init_eval)
  have pre: "runCalls noRandom []
               (take (11 + 1) (initCalls slashPaths (Conf noRandom [Mkdir ''/ol'' 0x1C0, LoadDefaults ''/ol'']) ''/ol'' []))
             = (None, take (11 + 1) (initCalls slashPaths (Conf noRandom [Mkdir ''/ol'' 0x1C0, LoadDefaults ''/ol'']) ''/ol'' []))"
    by (simp add: init_eval)
  have bad: "sys noRandom
               (take (11 + 1) (initCalls slashPaths (Conf noRandom [Mkdir ''/ol'' 0x1C0, LoadDefaults ''/ol'']) ''/ol'' []))
               (devNodes slashPaths (SOCK_base_path (Conf noRandom [Mkdir ''/ol'' 0x1C0, LoadDefaults ''/ol''])) ! 1)
             = Some (Opaque ''exit status 1'')"
    by (simp add: init_eval)
  note T1 = initOLDir_device_nodes[of obligingOS "''/ol''" slashPaths "[]", unfolded Let_def]
  have a: "callsOf (snd (initOLDir slashPaths obligingOS ''/ol'' [])) =
           take 11 (initCalls slashPaths (Conf obligingOS [Mkdir ''/ol'' 0x1C0, LoadDefaults ''/ol'']) ''/ol'' [])
           @ devNodes slashPaths (SOCK_base_path (Conf obligingOS [Mkdir ''/ol'' 0x1C0, LoadDefaults ''/ol'']))"
    by (rule T1[THEN conjunct2, THEN conjunct1, THEN mp, OF good, THEN conjunct1])
  note T2 = initOLDir_device_nodes[of noRandom "''/ol''" slashPaths "[]", unfolded Let_def]
  have lt: "(1::nat) < 3" by simp
  have b: "fst (initOLDir slashPaths noRandom ''/ol'' []) = Some (Opaque ''exit status 1'')
         \<and> callsOf (snd (initOLDir slashPaths noRandom ''/ol'' [])) =
           take (11 + 1) (initCalls slashPaths (Conf noRandom [Mkdir ''/ol'' 0x1C0, LoadDefaults ''/ol'']) ''/ol'' [])
           @ [devNodes slashPaths (SOCK_base_path (Conf noRandom [Mkdir ''/ol'' 0x1C0, LoadDefaults ''/ol''])) ! 1]"
    by (rule T2[THEN conjunct2, THEN conjunct2, THEN spec, THEN mp, OF lt, THEN spec, THEN mp,
          OF conjI[OF pre bad]])
  have a': "callsOf (snd (initOLDir slashPaths obligingOS ''/ol'' [])) =
     [Mkdir ''/ol'' 0x1C0, LoadDefaults ''/ol'', SaveConf ''/ol/config.json'',
      Mkdir ''/ol/worker'' 0x1C0, Mkdir ''/ol/registry'' 0x1C0, NewClientFromEnv,
      DumpDockerImage ''ol-wasm'' ''/ol/lambda'',
      Mkdir ''/ol/lambda/handler'' 0x1C0, Mkdir ''/ol/lambda/host'' 0x1C0,
      Mkdir ''/ol/lambda/packages'' 0x1C0,
      SysWriteFile ''/ol/lambda/etc/resolv.conf'' ''nameserver 8.8.8.8\<newline>'' 0x1A4,
      Command ''mknod'' [''-m'', ''0644'', ''/ol/lambda/dev/null'', ''c'', ''1'', ''3''],
      Command ''mknod'' [''-m'', ''0644'', ''/ol/lambda/dev/random'', ''c'', ''1'', ''8''],
      Command ''mknod'' [''-m'', ''0644'', ''/ol/lambda/dev/urandom'', ''c'', ''1'', ''9'']]"
    unfolding a
    by (simp add: initCalls_def devNodes_def obligingOS_def slashPaths_def slashJoin_def sampleConfig_def)
  have b': "callsOf (snd (initOLDir slashPaths noRandom ''/ol'' [])) =
     [Mkdir ''/ol'' 0x1C0, LoadDefaults ''/ol'', SaveConf ''/ol/config.json'',
      Mkdir ''/ol/worker'' 0x1C0, Mkdir ''/ol/registry'' 0x1C0, NewClientFromEnv,
      DumpDockerImage ''ol-wasm'' ''/ol/lambda'',
      Mkdir ''/ol/lambda/handler'' 0x1C0, Mkdir ''/ol/lambda/host'' 0x1C0,
      Mkdir ''/ol/lambda/packages'' 0x1C0,
      SysWriteFile ''/ol/lambda/etc/resolv.conf'' ''nameserver 8.8.8.8\<newline>'' 0x1A4,
      Command ''mknod'' [''-m'', ''0644'', ''/ol/lambda/dev/null'', ''c'', ''1'', ''3''],
      Command ''mknod'' [''-m'', ''0644'', ''/ol/lambda/dev/random'', ''c'', ''1'', ''8'']]"
    unfolding b[THEN conjunct2]
    by (simp add: initCalls_def devNodes_def obligingOS_def noRandom_def slashPaths_def
          slashJoin_def sampleConfig_def)
  show ?thesis
    using a' b' b[THEN conjunct1] by (intro conjI)
qed


section \<open>Properties of the readiness loop\<close>

declare up_poll.simps [simp del]

lemma up_poll_attempts:
  "length (filter isAttempt (snd (up_poll T E pid port i pe tr)))
     \<le> length (filter isAttempt tr) + (300 - i)"
proof (induction T E pid port i pe tr rule: up_poll.induct)
  case (1 T E pid port i pe tr)
  show ?case
  proof (cases "i < 300")
    case False
    then show ?thesis by (simp add: up_poll.simps[of T E pid port i])
  next
    case lt: True
    show ?thesis
    proof (cases "died E i")
      case (Some d)
      then show ?thesis using lt
        by (cases d) (simp_all add: up_poll.simps[of T E pid port i])
    next
      case None
      show ?thesis
      proof (cases "httpGet E i")
        case (Inl err)
        have "length (filter isAttempt (snd (up_poll T E pid port (i + 1) (Some err)
                 (tr @ [Call (Signal pid 0), Call (HttpGet (''http://localhost:'' @ port @ ''/pid''))]
                     @ [Call (Sleep 100)]))))
              \<le> length (filter isAttempt (tr @ [Call (Signal pid 0), Call (HttpGet (''http://localhost:'' @ port @ ''/pid''))]
                     @ [Call (Sleep 100)])) + (300 - (i + 1))"
          using "1.IH"[OF lt None refl refl Inl] by simp
        then show ?thesis using lt None Inl
          by (simp add: up_poll.simps[of T E pid port i] Let_def)
      next
        case (Inr body)
        then show ?thesis using lt None
          by (cases "Atoi (T body)") (simp_all add: up_poll.simps[of T E pid port i] Let_def)
      qed
    qed
  qed
qed

lemma up_poll_failures:
  assumes "n \<le> 300" and "i \<le> n"
    and "\<forall>j. i \<le> j \<and> j < n \<longrightarrow> died E j = None \<and> httpGet E j = Inl (err j)"
  shows "up_poll T E pid port i pe tr =
         up_poll T E pid port n (if i < n then Some (err (n - 1)) else pe)
           (tr @ concat (replicate (n - i) (pollRound pid port)))"
  using assms
proof (induction "n - i" arbitrary: i pe tr)
  case 0
  then show ?case by simp
next
  case (Suc k)
  then have lt: "i < n" "i < 300" and k: "k = n - (i + 1)" by auto
  have here: "died E i = None" "httpGet E i = Inl (err i)"
    using Suc.prems(3) lt by auto
  have step: "up_poll T E pid port i pe tr =
              up_poll T E pid port (i + 1) (Some (err i)) (tr @ pollRound pid port)"
    using lt here by (simp add: up_poll.simps[of T E pid port i] Let_def pollRound_def)
  have rest: "up_poll T E pid port (i + 1) (Some (err i)) (tr @ pollRound pid port) =
              up_poll T E pid port n (if i + 1 < n then Some (err (n - 1)) else Some (err i))
                (tr @ pollRound pid port @ concat (replicate (n - (i + 1)) (pollRound pid port)))"
    using Suc.hyps(1)[OF k, of "Some (err i)" "tr @ pollRound pid port"] Suc.prems lt by simp
  have e: "(if i + 1 < n then Some (err (n - 1)) else Some (err i)) = Some (err (n - 1))"
  proof (cases "i + 1 < n")
    case True
    then show ?thesis by simp
  next
    case False
    with lt have "n - 1 = i" by arith
    then show ?thesis using False by simp
  qed
  have r: "pollRound pid port @ concat (replicate (n - (i + 1)) (pollRound pid port))
           = concat (replicate (n - i) (pollRound pid port))"
  proof -
    from lt have "n - i = Suc (n - (i + 1))" by arith
    then show ?thesis by simp
  qed
  show ?case using step rest e r lt by simp
qed

text \<open>
  C4.  In the attempt in which the request to \<^verbatim>\<open>/pid\<close> succeeds and the body parses
  as an integer (every earlier attempt having failed to connect), the loop returns at
  once: \<^verbatim>\<open>nil\<close> after printing \<^verbatim>\<open>ready\<close> when the reported PID is the PID of the
  child, the port-conflict error otherwise.  The trace shows that no request and no
  sleep follows.
\<close>

theorem up_poll_pid_answer:
  assumes "n < 300"
    and "\<forall>j<n. died E j = None \<and> httpGet E j = Inl (err j)"
    and "died E n = None" and "httpGet E n = Inr body"
    and "Atoi (TrimSpace body) = Inr rpid"
  shows "up_poll TrimSpace E pid port 0 None [] =
           (if rpid = pid then None
            else Some (Errorf ''expected PID %v but found %v (port conflict?)''
                         [ArgD pid, ArgD rpid]),
            concat (replicate n (pollRound pid port))
            @ [Call (Signal pid 0), Call (HttpGet (''http://localhost:'' @ port @ ''/pid''))]
            @ (if rpid = pid then [Printf ''ready\<newline>'' []] else [])
            @ [Call BodyClose])"
proof -
  have "up_poll TrimSpace E pid port 0 None [] =
        up_poll TrimSpace E pid port n (if 0 < n then Some (err (n - 1)) else None)
          ([] @ concat (replicate (n - 0) (pollRound pid port)))"
    using assms(1,2) by (intro up_poll_failures) auto
  then show ?thesis
    using assms(1,3,4,5) by (simp add: up_poll.simps[of TrimSpace E pid port n] Let_def)
qed

theorem up_poll_pid_answer_witness:
  "up_poll trimASCII upAfterTwo 4242 ''5000'' 0 None [] =
     (None, concat (replicate 2 (pollRound 4242 ''5000''))
            @ [Call (Signal 4242 0), Call (HttpGet ''http://localhost:5000/pid''),
               Printf ''ready\<newline>'' [], Call BodyClose])
   \<and> up_poll trimASCII upAfterTwo 17 ''5000'' 0 None [] =
     (Some (Errorf ''expected PID %v but found %v (port conflict?)'' [ArgD 17, ArgD 4242]),
      concat (replicate 2 (pollRound 17 ''5000''))
            @ [Call (Signal 17 0), Call (HttpGet ''http://localhost:5000/pid''),
               Call BodyClose])"
proof -
  have a: "Atoi (trimASCII ''4242\<newline>'') = Inr 4242"
    by (simp add: trimASCII_def isSpaceASCII_def Atoi_def isDigit_def digitVal_def maxUint64_def)
  have f: "\<forall>j<2. died upAfterTwo j = None \<and> httpGet upAfterTwo j = Inl refused"
    by (simp add: upAfterTwo_def)
  have d: "died upAfterTwo 2 = None" "httpGet upAfterTwo 2 = Inr ''4242\<newline>''"
    by (simp_all add: upAfterTwo_def)
  show ?thesis
    using up_poll_pid_answer[of 2 upAfterTwo "\<lambda>j. refused" "''4242\<newline>''" trimASCII 4242 4242 "''5000''", OF _ f d a]
      up_poll_pid_answer[of 2 upAfterTwo "\<lambda>j. refused" "''4242\<newline>''" trimASCII 4242 17 "''5000''", OF _ f d a]
    by simp
qed

text \<open>
  C10.  In the attempt in which the request to \<^verbatim>\<open>/pid\<close> succeeds and the trimmed
  body does not parse as a decimal integer, the loop returns the error
  \<^verbatim>\<open>/pid did not return an int\<close> at once, without a sleep and without another
  request.
\<close>

theorem up_poll_not_an_int:
  assumes "n < 300"
    and "\<forall>j<n. died E j = None \<and> httpGet E j = Inl (err j)"
    and "died E n = None" and "httpGet E n = Inr body"
    and "Atoi (TrimSpace body) = Inl e"
  shows "up_poll TrimSpace E pid port 0 None [] =
           (Some (Errorf ''/pid did not return an int :: %s'' [ArgE (Some e)]),
            concat (replicate n (pollRound pid port))
            @ [Call (Signal pid 0), Call (HttpGet (''http://localhost:'' @ port @ ''/pid'')),
               Call BodyClose])"
proof -
  have "up_poll TrimSpace E pid port 0 None [] =
        up_poll TrimSpace E pid port n (if 0 < n then Some (err (n - 1)) else None)
          ([] @ concat (replicate (n - 0) (pollRound pid port)))"
    using assms(1,2) by (intro up_poll_failures) auto
  then show ?thesis
    using assms(1,3,4,5) by (simp add: up_poll.simps[of TrimSpace E pid port n] Let_def)
qed

theorem up_poll_not_an_int_witness:
  "up_poll trimASCII notYetInitialized 4242 ''5000'' 0 None [] =
     (Some (Errorf ''/pid did not return an int :: %s''
              [ArgE (Some (NumError ''Atoi'' ''starting'' ErrSyntax))]),
      pollRound 4242 ''5000''
      @ [Call (Signal 4242 0), Call (HttpGet ''http://localhost:5000/pid''), Call BodyClose])"
proof -
  have a: "Atoi (trimASCII ''starting'') = Inl (NumError ''Atoi'' ''starting'' ErrSyntax)"
    by (simp add: trimASCII_def isSpaceASCII_def Atoi_def isDigit_def digitVal_def maxUint64_def)
  have f: "\<forall>j<1. died notYetInitialized j = None \<and> httpGet notYetInitialized j = Inl refused"
    by (simp add: notYetInitialized_def)
  have d: "died notYetInitialized 1 = None" "httpGet notYetInitialized 1 = Inr ''starting''"
    by (simp_all add: notYetInitialized_def)
  show ?thesis
    using up_poll_not_an_int[of 1 notYetInitialized "\<lambda>j. refused" "''starting''" trimASCII _ 4242 "''5000''", OF _ f d a]
    by simp
qed

text \<open>
  C5.  The loop never makes more than 300 requests.  When all 300 attempts fail to
  connect (no death is reported, no answer arrives), each attempt is followed by a
  sleep of 100 milliseconds and the loop returns the time-out error, which carries
  the connection error of the last attempt.
\<close>

theorem up_poll_bounded:
  "length (filter isAttempt (snd (up_poll TrimSpace E pid port 0 None []))) \<le> 300
   \<and> ((\<forall>i<300. died E i = None \<and> httpGet E i = Inl (err i)) \<longrightarrow>
        up_poll TrimSpace E pid port 0 None [] =
          (Some (Errorf ''worker still not reachable after 30 seconds :: %s''
                   [ArgE (Some (err 299))]),
           concat (replicate 300 (pollRound pid port))))"
proof
  show "length (filter isAttempt (snd (up_poll TrimSpace E pid port 0 None []))) \<le> 300"
    using up_poll_attempts[of TrimSpace E pid port 0 None "[]"] by simp
next
  show "(\<forall>i<300. died E i = None \<and> httpGet E i = Inl (err i)) \<longrightarrow>
        up_poll TrimSpace E pid port 0 None [] =
          (Some (Errorf ''worker still not reachable after 30 seconds :: %s''
                   [ArgE (Some (err 299))]),
           concat (replicate 300 (pollRound pid port)))"
  proof
    assume all: "\<forall>i<300. died E i = None \<and> httpGet E i = Inl (err i)"
    have "up_poll TrimSpace E pid port 0 None [] =
          up_poll TrimSpace E pid port 300 (if 0 < (300::nat) then Some (err (300 - 1)) else None)
            ([] @ concat (replicate (300 - 0) (pollRound pid port)))"
      using all by (intro up_poll_failures) auto
    then show "up_poll TrimSpace E pid port 0 None [] =
          (Some (Errorf ''worker still not reachable after 30 seconds :: %s''
                   [ArgE (Some (err 299))]),
           concat (replicate 300 (pollRound pid port)))"
      by (simp add: up_poll.simps[of TrimSpace E pid port 300])
  qed
qed

theorem up_poll_bounded_witness:
  "up_poll trimASCII neverUp 4242 ''5000'' 0 None [] =
     (Some (Errorf ''worker still not reachable after 30 seconds :: %s''
              [ArgE (Some refused)]),
      concat (replicate 300 (pollRound 4242 ''5000'')))"
proof -
  have f: "\<forall>i<300. died neverUp i = None \<and> httpGet neverUp i = Inl refused"
    by (simp add: neverUp_def)
  show ?thesis
    using up_poll_bounded[of trimASCII neverUp 4242 "''5000''" "\<lambda>i. refused"] f
    by blast
qed


section \<open>Properties of down\<close>

declare down_wait.simps [simp del]
declare decimal.simps [simp del]

lemma down_wait_alive:
  assumes "i \<le> 300" and "\<forall>j. i \<le> j \<and> j < 300 \<longrightarrow> probe E j = None"
  shows "down_wait E pid i tr =
           (Some (Errorf ''worker didn't stop after 30s'' []),
            tr @ concat (replicate (300 - i) (probeRound pid)))"
  using assms
proof (induction "300 - i" arbitrary: i tr)
  case 0
  then have "i = 300" by simp
  then show ?case by (simp add: down_wait.simps[of E pid 300])
next
  case (Suc k)
  then have lt: "i < 300" and k: "k = 300 - (i + 1)" by auto
  have here: "probe E i = None" using Suc.prems(2) lt by auto
  have step: "down_wait E pid i tr = down_wait E pid (i + 1) (tr @ probeRound pid)"
    using lt here by (simp add: down_wait.simps[of E pid i] probeRound_def)
  have rest: "down_wait E pid (i + 1) (tr @ probeRound pid) =
              (Some (Errorf ''worker didn't stop after 30s'' []),
               (tr @ probeRound pid) @ concat (replicate (300 - (i + 1)) (probeRound pid)))"
    using Suc.hyps(1)[OF k] Suc.prems lt by simp
  from lt have "300 - i = Suc (300 - (i + 1))" by arith
  then have "concat (replicate (300 - i) (probeRound pid))
             = probeRound pid @ concat (replicate (300 - (i + 1)) (probeRound pid))"
    by simp
  with step rest show ?case by simp
qed

lemma down_alive:
  assumes "loadConf E (Join fp [olPath, ''config.json'']) = Inr cfg"
    and "readFile E (Join fp [Worker_dir cfg, ''worker.pid'']) = Inr data"
    and "Atoi data = Inr pid"
    and "\<forall>i<300. probe E i = None"
  shows "fst (down fp E (Inr olPath)) = Some (Errorf ''worker didn't stop after 30s'' [])"
    and "\<exists>pre. snd (down fp E (Inr olPath)) = pre @ concat (replicate 300 (probeRound pid))"
  using assms down_wait_alive[of 0 E pid]
  by (simp_all add: down_def Let_def)

text \<open>
  C6, as amended.  When the configuration and the PID file are read, and the process
  answers the zero signal in all 300 rounds, \<^verbatim>\<open>down\<close> returns the error with the
  fixed text \<^verbatim>\<open>worker didn't stop after 30s\<close>, after 300 rounds of a probe and a
  sleep of 100 milliseconds.
\<close>

theorem down_timeout:
  assumes "loadConf E (Join fp [olPath, ''config.json'']) = Inr cfg"
    and "readFile E (Join fp [Worker_dir cfg, ''worker.pid'']) = Inr data"
    and "Atoi data = Inr pid"
    and "\<forall>i<300. probe E i = None"
  shows "fst (down fp E (Inr olPath)) = Some (Errorf ''worker didn't stop after 30s'' [])
       \<and> (\<exists>pre. snd (down fp E (Inr olPath)) = pre @ concat (replicate 300 (probeRound pid)))"
  using down_alive[OF assms] by simp

lemma stubborn_facts:
  "loadConf stubbornWorker (Join slashPaths [''/ol'', ''config.json'']) = Inr sampleConfig"
  "readFile stubbornWorker (Join slashPaths [Worker_dir sampleConfig, ''worker.pid'']) = Inr ''4242''"
  "Atoi ''4242'' = Inr 4242"
  "\<forall>i<300. probe stubbornWorker i = None"
  by (simp_all add: stubbornWorker_def Atoi_def isDigit_def digitVal_def maxUint64_def)

theorem down_timeout_witness:
  "fst (down slashPaths stubbornWorker (Inr ''/ol'')) = Some (Errorf ''worker didn't stop after 30s'' [])"
  using down_timeout[OF stubborn_facts] by simp

lemma decimal_4242: "decimal 4242 = ''4242''"
  by (simp add: decimal.simps[of 4242] decimal.simps[of 424] decimal.simps[of 42] decimal.simps[of 4])

text \<open>
  The claim C6 as it was stated fails: the error returned for the process 4242
  has no argument, its text does not hold the digits of the PID and does not speak
  of doing anything by hand.
\<close>

theorem down_timeout_is_fixed_text:
  "fst (down slashPaths stubbornWorker (Inr ''/ol'')) = Some (Errorf ''worker didn't stop after 30s'' [])
   \<and> \<not> namesPID (Errorf ''worker didn't stop after 30s'' []) 4242
   \<and> \<not> advisesManual (Errorf ''worker didn't stop after 30s'' [])"
proof -
  have "\<not> sublist ''4242'' ''worker didn't stop after 30s''"
    by (simp add: sublist_code)
  moreover have "\<not> sublist ''manual'' (ToLower ''worker didn't stop after 30s'')"
    by (simp add: ToLower_def lowerByte_def sublist_code)
  ultimately show ?thesis
    using down_alive(1)[OF stubborn_facts]
    by (simp add: namesPID_def advisesManual_def decimal_4242)
qed


section \<open>Properties of cleanup\<close>

lemma callsOf_attempt: "callsOf (attempt E c format args tr) = callsOf tr @ [c]"
  by (simp add: attempt_def callsOf_append split: option.splits)

lemma callsOf_removeCgroups:
  "callsOf (removeCgroups fp E cgRoot files tr)
   = callsOf tr @ map (\<lambda>name. Rmdir (Join fp [cgRoot, name])) (filter (prefix ''cg-'') files)"
  by (induction files arbitrary: tr) (simp_all add: Let_def callsOf_attempt callsOf_append)

lemma callsOf_unmountAll:
  "callsOf (unmountAll fp E dirName files tr)
   = callsOf tr @ concat (map (\<lambda>name. [Unmount (Join fp [dirName, name]) 2,
                                        Rmdir (Join fp [dirName, name])]) files)"
  by (induction files arbitrary: tr) (simp_all add: Let_def callsOf_attempt callsOf_append)

lemma cleanup_calls:
  "callsOf (snd (cleanup fp E (Inr olPath))) = cleanupPlan fp E olPath"
  by (simp add: cleanup_def cleanupPlan_def cgroupPlan_def mountPlan_def Let_def
        callsOf_attempt callsOf_append callsOf_removeCgroups callsOf_unmountAll
      split: sum.splits)

lemma cleanup_returns: "fst (cleanup fp E (Inr olPath)) = None"
  by (simp add: cleanup_def Let_def)

lemma reported_append: "tr \<noteq> [] \<Longrightarrow> reported (tr @ es) = reported tr"
  by (cases tr rule: reported.cases) auto

lemma outcomesIn_append:
  "reported es = None \<Longrightarrow> outcomesIn (tr @ es) = outcomesIn tr @ outcomesIn es"
proof (induction tr rule: outcomesIn.induct)
  case 1
  then show ?case by simp
next
  case (2 format args tr)
  then show ?case by simp
next
  case (3 c tr)
  then show ?case by (cases "tr = []") (simp_all add: reported_append)
qed

lemma annotate_append:
  "annotate E h (as @ bs) = annotate E h as @ annotate E (h @ as) bs"
  by (induction as arbitrary: h) auto

lemma outcomesIn_attempt:
  assumes "\<And>err. firstError (args err) = Some err" and "\<And>dir. c \<noteq> ReadDir dir"
  shows "outcomesIn (attempt E c format args tr) = outcomesIn tr @ annotate E (callsOf tr) [c]"
proof -
  have o: "outcome E (callsOf tr) c = sys E (callsOf tr) c"
    using assms(2) by (cases c) auto
  show ?thesis
  proof (cases "sys E (callsOf tr) c")
    case None
    then show ?thesis using o by (simp add: attempt_def outcomesIn_append)
  next
    case (Some err)
    then show ?thesis using o assms(1) by (simp add: attempt_def outcomesIn_append)
  qed
qed

lemma outcomesIn_removeCgroups:
  "outcomesIn (removeCgroups fp E cgRoot files tr)
   = outcomesIn tr @ annotate E (callsOf tr)
       (map (\<lambda>name. Rmdir (Join fp [cgRoot, name])) (filter (prefix ''cg-'') files))"
proof (induction files arbitrary: tr)
  case Nil
  then show ?case by simp
next
  case (Cons name files)
  show ?case
  proof (cases "prefix ''cg-'' name")
    case False
    then show ?thesis using Cons.IH by simp
  next
    case True
    let ?cg = "Join fp [cgRoot, name]"
    let ?tr1 = "tr @ [Printf ''try removing %s\<newline>'' [ArgS ?cg]]"
    let ?tr2 = "attempt E (Rmdir ?cg) ''could remove cgroup: %s\<newline>'' (\<lambda>err. [ArgE (Some err)]) ?tr1"
    have a: "outcomesIn ?tr2 = outcomesIn tr @ annotate E (callsOf tr) [Rmdir ?cg]"
      by (simp add: outcomesIn_attempt outcomesIn_append callsOf_append)
    have c: "callsOf ?tr2 = callsOf tr @ [Rmdir ?cg]"
      by (simp add: callsOf_attempt callsOf_append)
    show ?thesis
      using True Cons.IH[of ?tr2] a c by (simp add: Let_def)
  qed
qed

lemma outcomesIn_unmountAll:
  "outcomesIn (unmountAll fp E dirName files tr)
   = outcomesIn tr @ annotate E (callsOf tr)
       (concat (map (\<lambda>name. [Unmount (Join fp [dirName, name]) 2,
                             Rmdir (Join fp [dirName, name])]) files))"
proof (induction files arbitrary: tr)
  case Nil
  then show ?case by simp
next
  case (Cons name files)
  let ?p = "Join fp [dirName, name]"
  let ?tr1 = "tr @ [Printf ''try unmounting %s\<newline>'' [ArgS ?p]]"
  let ?tr2 = "attempt E (Unmount ?p 2) ''could not unmount: %s\<newline>'' (\<lambda>err. [ArgE (Some err)]) ?tr1"
  let ?tr3 = "attempt E (Rmdir ?p) ''could remove mount dir: %s\<newline>'' (\<lambda>err. [ArgE (Some err)]) ?tr2"
  have c2: "callsOf ?tr2 = callsOf tr @ [Unmount ?p 2]"
    by (simp add: callsOf_attempt callsOf_append)
  have a: "outcomesIn ?tr3 = outcomesIn tr @ annotate E (callsOf tr) [Unmount ?p 2, Rmdir ?p]"
    by (simp add: outcomesIn_attempt outcomesIn_append callsOf_append c2)
  have c: "callsOf ?tr3 = callsOf tr @ [Unmount ?p 2, Rmdir ?p]"
    by (simp add: callsOf_attempt callsOf_append)
  show ?case
    using Cons.IH[of ?tr3] a c by (simp add: Let_def)
qed

lemma cleanup_outcomes:
  "outcomesIn (snd (cleanup fp E (Inr olPath))) = annotate E [] (cleanupPlan fp E olPath)"
  by (simp add: cleanup_def cleanupPlan_def cgroupPlan_def mountPlan_def Let_def
        outcomesIn_attempt outcomesIn_append outcomesIn_removeCgroups outcomesIn_unmountAll
        annotate_append
        callsOf_attempt callsOf_append callsOf_removeCgroups callsOf_unmountAll
      split: sum.splits)

text \<open>
  C7.  For every environment path and whatever the calls return, \<^verbatim>\<open>cleanup\<close>
  returns \<^verbatim>\<open>nil\<close>; the calls it makes are the calls of its plan, so that no error
  skips a later call; and every call that fails, the two listings included, is
  followed at once by a printed line that carries its error, while no call that
  succeeds is.
\<close>

theorem cleanup_never_fails:
  "fst (cleanup fp E (Inr olPath)) = None
   \<and> callsOf (snd (cleanup fp E (Inr olPath))) = cleanupPlan fp E olPath
   \<and> outcomesIn (snd (cleanup fp E (Inr olPath))) = annotate E [] (cleanupPlan fp E olPath)"
  by (simp add: cleanup_calls cleanup_returns cleanup_outcomes)

theorem cleanup_never_fails_witness:
  "fst (cleanup slashPaths refusingOS (Inr ''/ol'')) = None
   \<and> callsOf (snd (cleanup slashPaths refusingOS (Inr ''/ol''))) =
     [ReadDir ''/sys/fs/cgroup/ol-sandboxes'',
      SysWriteFile ''/sys/fs/cgroup/ol-sandboxes/cgroup.kill'' ''1'' 0x40000000,
      Rmdir ''/sys/fs/cgroup/ol-sandboxes/cg-7'',
      Rmdir ''/sys/fs/cgroup/ol-sandboxes'',
      ReadDir ''/ol/worker/root-sandboxes'',
      Unmount ''/ol/worker/root-sandboxes/sb-7'' 2,
      Rmdir ''/ol/worker/root-sandboxes/sb-7'',
      Unmount ''/ol/worker/root-sandboxes'' 2,
      Remove ''/ol/worker/worker.pid'']
   \<and> outcomesIn (snd (cleanup slashPaths refusingOS (Inr ''/ol''))) =
     [(ReadDir ''/sys/fs/cgroup/ol-sandboxes'', None),
      (SysWriteFile ''/sys/fs/cgroup/ol-sandboxes/cgroup.kill'' ''1'' 0x40000000,
         Some (Opaque ''operation not permitted'')),
      (Rmdir ''/sys/fs/cgroup/ol-sandboxes/cg-7'', Some (Opaque ''operation not permitted'')),
      (Rmdir ''/sys/fs/cgroup/ol-sandboxes'', Some (Opaque ''operation not permitted'')),
      (ReadDir ''/ol/worker/root-sandboxes'', None),
      (Unmount ''/ol/worker/root-sandboxes/sb-7'' 2, Some (Opaque ''operation not permitted'')),
      (Rmdir ''/ol/worker/root-sandboxes/sb-7'', Some (Opaque ''operation not permitted'')),
      (Unmount ''/ol/worker/root-sandboxes'' 2, Some (Opaque ''operation not permitted'')),
      (Remove ''/ol/worker/worker.pid'', Some (Opaque ''operation not permitted''))]
   \<and> snd (cleanup slashPaths refusingOS (Inr ''/ol'')) =
     [Printf ''ATTEMPT to cleanup cgroups at %s\<newline>'' [ArgS ''/sys/fs/cgroup/ol-sandboxes''],
      Call (ReadDir ''/sys/fs/cgroup/ol-sandboxes''),
      Call (SysWriteFile ''/sys/fs/cgroup/ol-sandboxes/cgroup.kill'' ''1'' 0x40000000),
      Printf ''could kill processes in cgroup: %s\<newline>''
        [ArgE (Some (Opaque ''operation not permitted''))],
      Printf ''try removing %s\<newline>'' [ArgS ''/sys/fs/cgroup/ol-sandboxes/cg-7''],
      Call (Rmdir ''/sys/fs/cgroup/ol-sandboxes/cg-7''),
      Printf ''could remove cgroup: %s\<newline>'' [ArgE (Some (Opaque ''operation not permitted''))],
      Call (Rmdir ''/sys/fs/cgroup/ol-sandboxes''),
      Printf ''could remove cgroup root: %s\<newline>''
        [ArgE (Some (Opaque ''operation not permitted''))],
      Printf ''ATTEMPT to cleanup mounts at %s\<newline>'' [ArgS ''/ol/worker/root-sandboxes''],
      Call (ReadDir ''/ol/worker/root-sandboxes''),
      Printf ''try unmounting %s\<newline>'' [ArgS ''/ol/worker/root-sandboxes/sb-7''],
      Call (Unmount ''/ol/worker/root-sandboxes/sb-7'' 2),
      Printf ''could not unmount: %s\<newline>'' [ArgE (Some (Opaque ''operation not permitted''))],
      Call (Rmdir ''/ol/worker/root-sandboxes/sb-7''),
      Printf ''could remove mount dir: %s\<newline>''
        [ArgE (Some (Opaque ''operation not permitted''))],
      Call (Unmount ''/ol/worker/root-sandboxes'' 2),
      Printf ''could not unmount %s: %s\<newline>''
        [ArgS ''/ol/worker/root-sandboxes'', ArgE (Some (Opaque ''operation not permitted''))],
      Call (Remove ''/ol/worker/worker.pid''),
      Printf ''could not remove worker.pid: %s\<newline>''
        [ArgE (Some (Opaque ''operation not permitted''))]]"
proof -
  have plan: "cleanupPlan slashPaths refusingOS ''/ol'' =
     [ReadDir ''/sys/fs/cgroup/ol-sandboxes'',
      SysWriteFile ''/sys/fs/cgroup/ol-sandboxes/cgroup.kill'' ''1'' 0x40000000,
      Rmdir ''/sys/fs/cgroup/ol-sandboxes/cg-7'',
      Rmdir ''/sys/fs/cgroup/ol-sandboxes'',
      ReadDir ''/ol/worker/root-sandboxes'',
      Unmount ''/ol/worker/root-sandboxes/sb-7'' 2,
      Rmdir ''/ol/worker/root-sandboxes/sb-7'',
      Unmount ''/ol/worker/root-sandboxes'' 2,
      Remove ''/ol/worker/worker.pid'']"
    by (simp add: cleanupPlan_def cgroupPlan_def mountPlan_def Let_def refusingOS_def
          slashPaths_def slashJoin_def lastElem_def)
  have trace: "snd (cleanup slashPaths refusingOS (Inr ''/ol'')) =
     [Printf ''ATTEMPT to cleanup cgroups at %s\<newline>'' [ArgS ''/sys/fs/cgroup/ol-sandboxes''],
      Call (ReadDir ''/sys/fs/cgroup/ol-sandboxes''),
      Call (SysWriteFile ''/sys/fs/cgroup/ol-sandboxes/cgroup.kill'' ''1'' 0x40000000),
      Printf ''could kill processes in cgroup: %s\<newline>''
        [ArgE (Some (Opaque ''operation not permitted''))],
      Printf ''try removing %s\<newline>'' [ArgS ''/sys/fs/cgroup/ol-sandboxes/cg-7''],
      Call (Rmdir ''/sys/fs/cgroup/ol-sandboxes/cg-7''),
      Printf ''could remove cgroup: %s\<newline>'' [ArgE (Some (Opaque ''operation not permitted''))],
      Call (Rmdir ''/sys/fs/cgroup/ol-sandboxes''),
      Printf ''could remove cgroup root: %s\<newline>''
        [ArgE (Some (Opaque ''operation not permitted''))],
      Printf ''ATTEMPT to cleanup mounts at %s\<newline>'' [ArgS ''/ol/worker/root-sandboxes''],
      Call (ReadDir ''/ol/worker/root-sandboxes''),
      Printf ''try unmounting %s\<newline>'' [ArgS ''/ol/worker/root-sandboxes/sb-7''],
      Call (Unmount ''/ol/worker/root-sandboxes/sb-7'' 2),
      Printf ''could not unmount: %s\<newline>'' [ArgE (Some (Opaque ''operation not permitted''))],
      Call (Rmdir ''/ol/worker/root-sandboxes/sb-7''),
      Printf ''could remove mount dir: %s\<newline>''
        [ArgE (Some (Opaque ''operation not permitted''))],
      Call (Unmount ''/ol/worker/root-sandboxes'' 2),
      Printf ''could not unmount %s: %s\<newline>''
        [ArgS ''/ol/worker/root-sandboxes'', ArgE (Some (Opaque ''operation not permitted''))],
      Call (Remove ''/ol/worker/worker.pid''),
      Printf ''could not remove worker.pid: %s\<newline>''
        [ArgE (Some (Opaque ''operation not permitted''))]]"
    by (simp add: cleanup_def Let_def attempt_def refusingOS_def slashPaths_def slashJoin_def
          lastElem_def)
  have ann: "annotate refusingOS []
     [ReadDir ''/sys/fs/cgroup/ol-sandboxes'',
      SysWriteFile ''/sys/fs/cgroup/ol-sandboxes/cgroup.kill'' ''1'' 0x40000000,
      Rmdir ''/sys/fs/cgroup/ol-sandboxes/cg-7'',
      Rmdir ''/sys/fs/cgroup/ol-sandboxes'',
      ReadDir ''/ol/worker/root-sandboxes'',
      Unmount ''/ol/worker/root-sandboxes/sb-7'' 2,
      Rmdir ''/ol/worker/root-sandboxes/sb-7'',
      Unmount ''/ol/worker/root-sandboxes'' 2,
      Remove ''/ol/worker/worker.pid''] =
     [(ReadDir ''/sys/fs/cgroup/ol-sandboxes'', None),
      (SysWriteFile ''/sys/fs/cgroup/ol-sandboxes/cgroup.kill'' ''1'' 0x40000000,
         Some (Opaque ''operation not permitted'')),
      (Rmdir ''/sys/fs/cgroup/ol-sandboxes/cg-7'', Some (Opaque ''operation not permitted'')),
      (Rmdir ''/sys/fs/cgroup/ol-sandboxes'', Some (Opaque ''operation not permitted'')),
      (ReadDir ''/ol/worker/root-sandboxes'', None),
      (Unmount ''/ol/worker/root-sandboxes/sb-7'' 2, Some (Opaque ''operation not permitted'')),
      (Rmdir ''/ol/worker/root-sandboxes/sb-7'', Some (Opaque ''operation not permitted'')),
      (Unmount ''/ol/worker/root-sandboxes'' 2, Some (Opaque ''operation not permitted'')),
      (Remove ''/ol/worker/worker.pid'', Some (Opaque ''operation not permitted''))]"
    by (simp add: refusingOS_def)
  note T = cleanup_never_fails[of slashPaths refusingOS "''/ol''", unfolded plan ann]
  from T trace show ?thesis by simp
qed

text \<open>
  C8, as amended.  After the listing of the mount root, the entries are unmounted
  and removed when the listing succeeded, and in either case the detached unmount
  of the mount root itself follows, and then the removal of the PID file.
\<close>

theorem cleanup_unmounts_parent_always:
  "callsOf (snd (cleanup fp E (Inr olPath)))
   = cgroupPlan fp E olPath
     @ ReadDir (Join fp [olPath, ''worker'', ''root-sandboxes''])
     # (case readDir E (cgroupPlan fp E olPath) (Join fp [olPath, ''worker'', ''root-sandboxes'']) of
          Inl err \<Rightarrow> []
        | Inr files \<Rightarrow>
            concat (map (\<lambda>name. [Unmount (Join fp [Join fp [olPath, ''worker'', ''root-sandboxes''], name]) 2,
                                  Rmdir (Join fp [Join fp [olPath, ''worker'', ''root-sandboxes''], name])])
                      files))
     @ [Unmount (Join fp [olPath, ''worker'', ''root-sandboxes'']) 2,
        Remove (Join fp [olPath, ''worker'', ''worker.pid''])]"
  by (simp add: cleanup_calls cleanupPlan_def mountPlan_def Let_def)

text \<open>
  The claim C8 as it was stated fails: where no directory can be listed the mount
  root is unmounted all the same.
\<close>

theorem cleanup_unmounts_unlisted_parent:
  "readDir noDirs [ReadDir ''/sys/fs/cgroup/ol-sandboxes''] ''/ol/worker/root-sandboxes''
     = Inl (Opaque ''no such file or directory'')
   \<and> callsOf (snd (cleanup slashPaths noDirs (Inr ''/ol'')))
     = [ReadDir ''/sys/fs/cgroup/ol-sandboxes'',
        ReadDir ''/ol/worker/root-sandboxes'',
        Unmount ''/ol/worker/root-sandboxes'' 2,
        Remove ''/ol/worker/worker.pid'']"
  by (simp add: cleanup_calls cleanupPlan_def cgroupPlan_def mountPlan_def Let_def
        noDirs_def slashPaths_def slashJoin_def lastElem_def)


end
